theory Spec2Isabelle
  imports Complex_Main "HOL-Library.AList"
begin

section \<open>Python values, exceptions and text\<close>

text \<open>
  The repository is Python. Exceptions are values: a computation that may raise has type
  \<open>exn + 'a\<close>, with \<open>Inl\<close> the exception. A leading underscore of a source name is
  dropped (\<open>_safe_int\<close> is \<open>safe_int\<close>), since an Isabelle name starts with a letter.
\<close>

datatype exn =
    ValueError | AttributeError | TypeError | KeyError | NameError
  | IntegrityError | StatementError | OperationalError
  | UnicodeDecodeError | PlaywrightTimeout | OtherError string

datatype date = Date (year: int) (month: int) (day: int)

text \<open>
  Text is a list of characters standing for the code points below 256. \<open>is_space\<close> is
  Python's \<open>str.isspace\<close> on that range and \<open>strip\<close> is \<open>str.strip()\<close>, which is what
  \<open>get_text(strip=True)\<close> applies to the text of a cell.
\<close>

definition is_space :: "char \<Rightarrow> bool" where
  "is_space c = (let n = (of_char c :: nat) in
     (9 \<le> n \<and> n \<le> 13) \<or> (28 \<le> n \<and> n \<le> 32) \<or> n = 133 \<or> n = 160)"

definition strip :: "string \<Rightarrow> string" where
  "strip s = rev (dropWhile is_space (rev (dropWhile is_space s)))"

definition is_digit :: "char \<Rightarrow> bool" where
  "is_digit c = (let n = (of_char c :: nat) in 48 \<le> n \<and> n \<le> 57)"

definition digit_val :: "char \<Rightarrow> int" where
  "digit_val c = int (of_char c) - 48"

text \<open>
  \<open>int(text)\<close> of Python on a string: surrounding whitespace is dropped, then an optional
  sign, then decimal digits, where single underscores may stand between two digits.
  Anything else raises \<open>ValueError\<close>.
\<close>

fun digits_value :: "int \<Rightarrow> string \<Rightarrow> exn + int" where
  "digits_value acc [] = Inr acc"
| "digits_value acc (c # cs) =
     (if is_digit c then digits_value (10 * acc + digit_val c) cs
      else if c = CHR ''_'' \<and> (case cs of [] \<Rightarrow> False | d # _ \<Rightarrow> is_digit d)
           then digits_value acc cs
      else Inl ValueError)"

definition py_nat :: "string \<Rightarrow> exn + int" where
  "py_nat s = (case s of [] \<Rightarrow> Inl ValueError
     | c # _ \<Rightarrow> if is_digit c then digits_value 0 s else Inl ValueError)"

definition py_int :: "string \<Rightarrow> exn + int" where
  "py_int s = (case strip s of [] \<Rightarrow> Inl ValueError
     | c # cs \<Rightarrow>
         if c = CHR ''-'' then map_sum id uminus (py_nat cs)
         else if c = CHR ''+'' then py_nat cs
         else py_nat (c # cs))"

text \<open>
  Dictionaries keep insertion order, and assigning to a key that is present keeps its
  place: an association list with \<open>AList.update\<close>. A record handed to the store is a
  dictionary whose values are scalars or lists of dictionaries of scalars.
\<close>

datatype scalar = SNone | SBool bool | SInt int | SFloat real | SStr string | SDate date

type_synonym row = "(string \<times> scalar) list"

datatype pyval = Scalar scalar | Rows "row list"

type_synonym game_data = "(string \<times> pyval) list"

section \<open>Documents\<close>

text \<open>
  A parsed document is seen through \<open>soup.find('table', {'id': ...})\<close> and through the
  search for the \<open>Officials:\<close> marker: the tables with their ids, in document order, and,
  when the marker is there, the \<open>a\<close> elements that follow it, each with its text and its
  \<open>href\<close> if it has one. A table is the list of its \<open>tr\<close> rows and a row the list of the raw
  texts of its \<open>td\<close>/\<open>th\<close> cells. The rows \<open>tr.over_header\<close> and \<open>tr.thead\<close>, which
  \<open>parse_html_file\<close> removes first, are already gone from the tables.
\<close>

type_synonym cell = string
type_synonym trow = "cell list"
type_synonym table = "trow list"

record soup =
  tables :: "(string \<times> table) list"
  officials_links :: "(string \<times> string option) list option"

definition find_table :: "soup \<Rightarrow> string \<Rightarrow> table option" where
  "find_table s ident = map_of (tables s) ident"

definition get_text :: "cell \<Rightarrow> string" where
  "get_text c = strip c"

section \<open>Basic game information (data_processor.py, DataProcessor._parse_basic_game_info)\<close>

text \<open>
  \<open>datetime.strptime(date_str, "%Y%m%d")\<close>. The library turns the format into the
  regular expression \<open>(\d\d\d\d)(1[0-2]|0[1-9]|[1-9])(3[0-1]|[1-2]\d|0[1-9]|[1-9]| [1-9])\<close>,
  takes the first match in the order of the alternatives, raises \<open>ValueError\<close> when there
  is none or when text remains after it, and then builds the date, which raises
  \<open>ValueError\<close> for a year 0 or a day the month does not have.
\<close>

definition match_m :: "string \<Rightarrow> (int \<times> string) list" where
  "match_m s =
     (case s of a # b # r \<Rightarrow>
          (if a = CHR ''1'' \<and> is_digit b \<and> digit_val b \<le> 2 then [(10 + digit_val b, r)] else [])
        @ (if a = CHR ''0'' \<and> is_digit b \<and> 1 \<le> digit_val b then [(digit_val b, r)] else [])
      | _ \<Rightarrow> [])
   @ (case s of a # r \<Rightarrow>
          (if is_digit a \<and> 1 \<le> digit_val a then [(digit_val a, r)] else [])
      | _ \<Rightarrow> [])"

definition match_d :: "string \<Rightarrow> (int \<times> string) list" where
  "match_d s =
     (case s of a # b # r \<Rightarrow>
          (if a = CHR ''3'' \<and> is_digit b \<and> digit_val b \<le> 1 then [(30 + digit_val b, r)] else [])
        @ (if is_digit a \<and> 1 \<le> digit_val a \<and> digit_val a \<le> 2 \<and> is_digit b
             then [(10 * digit_val a + digit_val b, r)] else [])
        @ (if a = CHR ''0'' \<and> is_digit b \<and> 1 \<le> digit_val b then [(digit_val b, r)] else [])
      | _ \<Rightarrow> [])
   @ (case s of a # r \<Rightarrow>
          (if is_digit a \<and> 1 \<le> digit_val a then [(digit_val a, r)] else [])
      | _ \<Rightarrow> [])
   @ (case s of a # b # r \<Rightarrow>
          (if a = CHR '' '' \<and> is_digit b \<and> 1 \<le> digit_val b then [(digit_val b, r)] else [])
      | _ \<Rightarrow> [])"

definition match_Y :: "string \<Rightarrow> (int \<times> string) list" where
  "match_Y s =
     (case s of a # b # c # d # r \<Rightarrow>
          (if is_digit a \<and> is_digit b \<and> is_digit c \<and> is_digit d
           then [(1000 * digit_val a + 100 * digit_val b + 10 * digit_val c + digit_val d, r)]
           else [])
      | _ \<Rightarrow> [])"

definition is_leap :: "int \<Rightarrow> bool" where
  "is_leap y = (y mod 4 = 0 \<and> (y mod 100 \<noteq> 0 \<or> y mod 400 = 0))"

definition days_in_month :: "int \<Rightarrow> int \<Rightarrow> int" where
  "days_in_month y m =
     (if m = 2 then (if is_leap y then 29 else 28)
      else if m = 4 \<or> m = 6 \<or> m = 9 \<or> m = 11 then 30 else 31)"

definition strptime_Ymd :: "string \<Rightarrow> exn + date" where
  "strptime_Ymd s =
     (case concat (map (\<lambda>(y, r1). concat (map (\<lambda>(m, r2). map (\<lambda>(d, r3). (y, m, d, r3))
                (match_d r2)) (match_m r1))) (match_Y s)) of
        [] \<Rightarrow> Inl ValueError
      | (y, m, d, rest) # _ \<Rightarrow>
          if rest \<noteq> [] then Inl ValueError
          else if y < 1 \<or> d > days_in_month y m then Inl ValueError
          else Inr (Date y m d))"

text \<open>The season rule, lines 90-92: the year of the date, less one before July.\<close>

definition season_of :: "date \<Rightarrow> int" where
  "season_of game_date =
     (let season = year game_date in
      if month game_date < 7 then season - 1 else season)"

text \<open>
  The loop over the line-score rows, lines 104-113: a row with at least two cells gives a
  team (the text of its first cell) and a score (\<open>int\<close> of the text of its last cell, which
  may raise); other rows are passed over.
\<close>

fun line_score_rows :: "trow list \<Rightarrow> string list \<times> int list \<Rightarrow> exn + (string list \<times> int list)" where
  "line_score_rows [] acc = Inr acc"
| "line_score_rows (cells # rows) (teams, scores) =
     (if length cells \<ge> 2 then
        (let team = get_text (hd cells) in
         case py_int (get_text (last cells)) of
           Inl e \<Rightarrow> Inl e
         | Inr total_score \<Rightarrow> line_score_rows rows (teams @ [team], scores @ [total_score]))
      else line_score_rows rows (teams, scores))"

definition basic_game_info_body :: "soup \<Rightarrow> string \<Rightarrow> exn + game_data option" where
  "basic_game_info_body sp game_id =
     (case strptime_Ymd (take 8 game_id) of
        Inl e \<Rightarrow> Inl e
      | Inr game_date \<Rightarrow>
          (case find_table sp ''line_score'' of
             None \<Rightarrow> Inr None
           | Some line_score_table \<Rightarrow>
               (let rows = tl line_score_table in
                if length rows < 2 then Inr None
                else
                  (case line_score_rows rows ([], []) of
                     Inl e \<Rightarrow> Inl e
                   | Inr (teams, scores) \<Rightarrow>
                       if length teams \<noteq> 2 \<or> length scores \<noteq> 2 then Inr None
                       else
                         (let away_team = teams ! 0; home_team = teams ! 1;
                              away_score = scores ! 0; home_score = scores ! 1;
                              home_won = (home_score > away_score)
                          in Inr (Some
                            [(''game_id'', Scalar (SStr game_id)),
                             (''date'', Scalar (SDate game_date)),
                             (''season'', Scalar (SInt (season_of game_date))),
                             (''home_team'', Scalar (SStr home_team)),
                             (''away_team'', Scalar (SStr away_team)),
                             (''home_score'', Scalar (SInt home_score)),
                             (''away_score'', Scalar (SInt away_score)),
                             (''home_won'', Scalar (SBool home_won))]))))))"

text \<open>The whole body stands in \<open>try ... except Exception: return None\<close>.\<close>

definition parse_basic_game_info :: "soup \<Rightarrow> string \<Rightarrow> game_data option" where
  "parse_basic_game_info sp game_id =
     (case basic_game_info_body sp game_id of Inl e \<Rightarrow> None | Inr r \<Rightarrow> r)"

section \<open>The stat mapper (data_processor.py, lines 274-381)\<close>

text \<open>
  \<open>_safe_int\<close> and \<open>_safe_float\<close> call \<open>cell.get_text(strip=True)\<close> on what they are given.
  A cell of the document has that method; a plain string and \<open>None\<close> do not, and the call
  raises \<open>AttributeError\<close>. Both functions catch \<open>ValueError\<close> and \<open>AttributeError\<close> and
  nothing else. Python's \<open>float\<close> on a string is the parameter \<open>pf\<close>, with \<open>None\<close> where it
  raises \<open>ValueError\<close>, the one exception it has for a string; floats are read as reals.
\<close>

datatype pyobj = Tag cell | Str string | NoneObj

definition obj_get_text :: "pyobj \<Rightarrow> exn + string" where
  "obj_get_text ob = (case ob of Tag c \<Rightarrow> Inr (get_text c)
     | Str s \<Rightarrow> Inl AttributeError
     | NoneObj \<Rightarrow> Inl AttributeError)"

definition safe_int :: "pyobj \<Rightarrow> exn + int" where
  "safe_int cell =
     (case (case obj_get_text cell of
              Inl e \<Rightarrow> Inl e
            | Inr text \<Rightarrow> if text \<noteq> [] \<and> text \<noteq> '''' then py_int text else Inr 0) of
        Inl e \<Rightarrow> if e = ValueError \<or> e = AttributeError then Inr 0 else Inl e
      | Inr n \<Rightarrow> Inr n)"

definition safe_float :: "(string \<Rightarrow> real option) \<Rightarrow> pyobj \<Rightarrow> exn + real" where
  "safe_float pf cell =
     (case (case obj_get_text cell of
              Inl e \<Rightarrow> Inl e
            | Inr text \<Rightarrow>
                if text \<noteq> [] \<and> text \<noteq> ''''
                then (case pf text of None \<Rightarrow> Inl ValueError | Some x \<Rightarrow> Inr x)
                else Inr 0) of
        Inl e \<Rightarrow> if e = ValueError \<or> e = AttributeError then Inr 0 else Inl e
      | Inr x \<Rightarrow> Inr x)"

text \<open>\<open>sub in s\<close> on strings, and \<open>max(a, b)\<close> where \<open>b\<close> is a number.\<close>

fun starts_with :: "string \<Rightarrow> string \<Rightarrow> bool" where
  "starts_with [] s = True"
| "starts_with (p # ps) [] = False"
| "starts_with (p # ps) (c # cs) = (p = c \<and> starts_with ps cs)"

fun py_in :: "string \<Rightarrow> string \<Rightarrow> bool" where
  "py_in sub [] = (sub = [])"
| "py_in sub (c # cs) = (starts_with sub (c # cs) \<or> py_in sub cs)"

definition num_of :: "scalar \<Rightarrow> real option" where
  "num_of v = (case v of SInt n \<Rightarrow> Some (real_of_int n) | SFloat x \<Rightarrow> Some x
     | SBool b \<Rightarrow> Some (if b then 1 else 0) | _ \<Rightarrow> None)"

definition py_max :: "scalar \<Rightarrow> scalar \<Rightarrow> exn + scalar" where
  "py_max a b = (case (num_of a, num_of b) of
       (Some x, Some y) \<Rightarrow> Inr (if y > x then b else a)
     | _ \<Rightarrow> Inl TypeError)"

definition basic_mapping :: "(nat \<times> string) list" where
  "basic_mapping =
     [(1, ''mp''), (2, ''fg''), (3, ''fga''), (4, ''fg_pct''), (5, ''fg3''), (6, ''fg3a''),
      (7, ''fg3_pct''), (8, ''ft''), (9, ''fta''), (10, ''ft_pct''), (11, ''orb''),
      (12, ''drb''), (13, ''trb''), (14, ''ast''), (15, ''stl''), (16, ''blk''),
      (17, ''tov''), (18, ''pf''), (19, ''pts'')]"

definition advanced_mapping :: "(nat \<times> string) list" where
  "advanced_mapping =
     [(1, ''ts_pct''), (2, ''efg_pct''), (3, ''fg3a_rate''), (4, ''fta_rate''),
      (5, ''orb_pct''), (6, ''drb_pct''), (7, ''trb_pct''), (8, ''ast_pct''),
      (9, ''stl_pct''), (10, ''blk_pct''), (11, ''tov_pct''), (12, ''usg_pct''),
      (13, ''off_rtg''), (14, ''def_rtg''), (15, ''bpm'')]"

text \<open>
  A loop whose body may raise: the state reached so far is kept, since the dictionary
  \<open>stats\<close> is updated in place and is what the \<open>except\<close> branch returns.
\<close>

fun fold_exc :: "('s \<Rightarrow> 'a \<Rightarrow> 's \<times> exn option) \<Rightarrow> 'a list \<Rightarrow> 's \<Rightarrow> 's \<times> exn option" where
  "fold_exc f [] s = (s, None)"
| "fold_exc f (x # xs) s =
     (case f s x of (s', None) \<Rightarrow> fold_exc f xs s' | (s', Some e) \<Rightarrow> (s', Some e))"

text \<open>Lines 307-318: one cell of the totals row.\<close>

definition totals_step ::
  "(string \<Rightarrow> real option) \<Rightarrow> string \<Rightarrow> (nat \<times> string) list \<Rightarrow> row \<Rightarrow> nat \<times> cell
     \<Rightarrow> row \<times> exn option" where
  "totals_step pf stat_type stat_mapping stats ic =
     (case ic of (i, cell) \<Rightarrow>
      (case map_of stat_mapping i of
         None \<Rightarrow> (stats, None)
       | Some stat_name \<Rightarrow>
           (let value = get_text cell in
            if stat_type = ''basic'' then
              (if py_in ''pct'' stat_name then
                 (case safe_float pf (Str value) of
                    Inl e \<Rightarrow> (stats, Some e)
                  | Inr x \<Rightarrow> (AList.update stat_name (SFloat x) stats, None))
               else
                 (case safe_int (Str value) of
                    Inl e \<Rightarrow> (stats, Some e)
                  | Inr n \<Rightarrow> (AList.update stat_name (SInt n) stats, None)))
            else
              (case safe_float pf (Str value) of
                 Inl e \<Rightarrow> (stats, Some e)
               | Inr x \<Rightarrow> (AList.update stat_name (SFloat x) stats, None)))))"

text \<open>Lines 324-336: one cell of a player row, for the maxima.\<close>

definition max_step ::
  "(string \<Rightarrow> real option) \<Rightarrow> (nat \<times> string) list \<Rightarrow> row \<Rightarrow> nat \<times> cell \<Rightarrow> row \<times> exn option" where
  "max_step pf stat_mapping stats jc =
     (case jc of (j, cell) \<Rightarrow>
      (case map_of stat_mapping j of
         None \<Rightarrow> (stats, None)
       | Some name \<Rightarrow>
           (let stat_name = name @ ''_max''; value = get_text cell in
            if py_in ''pct'' name then
              (let current_max = (case map_of stats stat_name of None \<Rightarrow> SFloat 0 | Some v \<Rightarrow> v) in
               case safe_float pf (Str value) of
                 Inl e \<Rightarrow> (stats, Some e)
               | Inr new_value \<Rightarrow>
                   (case py_max current_max (SFloat new_value) of
                      Inl e \<Rightarrow> (stats, Some e)
                    | Inr m \<Rightarrow> (AList.update stat_name m stats, None)))
            else
              (let current_max = (case map_of stats stat_name of None \<Rightarrow> SInt 0 | Some v \<Rightarrow> v) in
               case safe_int (Str value) of
                 Inl e \<Rightarrow> (stats, Some e)
               | Inr new_value \<Rightarrow>
                   (case py_max current_max (SInt new_value) of
                      Inl e \<Rightarrow> (stats, Some e)
                    | Inr m \<Rightarrow> (AList.update stat_name m stats, None))))))"

definition max_row ::
  "(string \<Rightarrow> real option) \<Rightarrow> (nat \<times> string) list \<Rightarrow> row \<Rightarrow> trow \<Rightarrow> row \<times> exn option" where
  "max_row pf stat_mapping stats cells =
     fold_exc (max_step pf stat_mapping) (List.enumerate 1 (tl cells)) stats"

text \<open>
  \<open>_parse_stats_table\<close>. The table is a tag, which is always true; its rows are
  \<open>table.find_all('tr')\<close>. \<open>rows[1:-1]\<close> is \<open>butlast (tl rows)\<close>. Whatever is raised inside is
  logged and the dictionary built so far is returned.
\<close>

definition stats_table_body ::
  "(string \<Rightarrow> real option) \<Rightarrow> table \<Rightarrow> string \<Rightarrow> row \<times> exn option" where
  "stats_table_body pf rows stat_type =
     (if rows = [] then ([], None)
      else
        (let totals_row = last rows;
             cells = totals_row;
             stat_mapping = (if stat_type = ''basic'' then basic_mapping else advanced_mapping)
         in case fold_exc (totals_step pf stat_type stat_mapping) (List.enumerate 1 (tl cells)) [] of
              (stats, Some e) \<Rightarrow> (stats, Some e)
            | (stats, None) \<Rightarrow>
                if stat_type = ''basic''
                then fold_exc (max_row pf stat_mapping) (butlast (tl rows)) stats
                else (stats, None)))"

definition parse_stats_table :: "(string \<Rightarrow> real option) \<Rightarrow> table \<Rightarrow> string \<Rightarrow> row" where
  "parse_stats_table pf tbl stat_type = fst (stats_table_body pf tbl stat_type)"

text \<open>
  \<open>_parse_team_stats\<close>, lines 138-169. \<open>{..., **basic_stats, **advanced_stats}\<close> writes the
  keys in that order, a later value for a key replacing the earlier one in its place.
\<close>

definition dict_merge :: "('k \<times> 'v) list \<Rightarrow> ('k \<times> 'v) list \<Rightarrow> ('k \<times> 'v) list" where
  "dict_merge a b = fold (\<lambda>(k, v) d. AList.update k v d) b a"

definition team_stat_for :: "(string \<Rightarrow> real option) \<Rightarrow> soup \<Rightarrow> string \<Rightarrow> string \<Rightarrow> row list" where
  "team_stat_for pf sp game_id team =
     (case find_table sp (''box-'' @ team @ ''-game-basic'') of
        None \<Rightarrow> []
      | Some basic_table \<Rightarrow>
          (let basic_stats = parse_stats_table pf basic_table ''basic'';
               advanced_stats =
                 (case find_table sp (''box-'' @ team @ ''-game-advanced'') of
                    None \<Rightarrow> []
                  | Some advanced_table \<Rightarrow> parse_stats_table pf advanced_table ''advanced'')
           in [dict_merge
                 (dict_merge
                    [(''game_id'', SStr game_id), (''team'', SStr team),
                     (''is_home'', SBool (team = ''home''))]
                    basic_stats)
                 advanced_stats]))"

definition parse_team_stats :: "(string \<Rightarrow> real option) \<Rightarrow> soup \<Rightarrow> string \<Rightarrow> row list" where
  "parse_team_stats pf sp game_id =
     team_stat_for pf sp game_id ''home'' @ team_stat_for pf sp game_id ''away''"

text \<open>
  \<open>_parse_player_row\<close>, lines 196-243. The dictionary literal reads the cells in the order
  below. After it the function evaluates \<open>soup.find(...)\<close>, and no name \<open>soup\<close> is bound in
  that method or in the module, so Python raises \<open>NameError\<close>; the handler of the method
  turns it, like any exception, into \<open>None\<close>.
\<close>

datatype field_kind = IntField | FloatField

definition player_fields :: "(string \<times> nat \<times> field_kind) list" where
  "player_fields =
     [(''fg'', 2, IntField), (''fga'', 3, IntField), (''fg_pct'', 4, FloatField),
      (''fg3'', 5, IntField), (''fg3a'', 6, IntField), (''fg3_pct'', 7, FloatField),
      (''ft'', 8, IntField), (''fta'', 9, IntField), (''ft_pct'', 10, FloatField),
      (''orb'', 11, IntField), (''drb'', 12, IntField), (''trb'', 13, IntField),
      (''ast'', 14, IntField), (''stl'', 15, IntField), (''blk'', 16, IntField),
      (''tov'', 17, IntField), (''pf'', 18, IntField), (''pts'', 19, IntField),
      (''plus_minus'', 20, IntField)]"

definition player_field_step ::
  "(string \<Rightarrow> real option) \<Rightarrow> trow \<Rightarrow> row \<Rightarrow> string \<times> nat \<times> field_kind \<Rightarrow> row \<times> exn option" where
  "player_field_step pf cells stats f =
     (case f of (name, k, kind) \<Rightarrow>
      (case kind of
         IntField \<Rightarrow>
           (case (if length cells > k then safe_int (Tag (cells ! k)) else Inr 0) of
              Inl e \<Rightarrow> (stats, Some e)
            | Inr n \<Rightarrow> (stats @ [(name, SInt n)], None))
       | FloatField \<Rightarrow>
           (case (if length cells > k then safe_float pf (Tag (cells ! k)) else Inr 0) of
              Inl e \<Rightarrow> (stats, Some e)
            | Inr x \<Rightarrow> (stats @ [(name, SFloat x)], None))))"

definition player_row_body ::
  "(string \<Rightarrow> real option) \<Rightarrow> trow \<Rightarrow> string \<Rightarrow> string \<Rightarrow> exn + row option" where
  "player_row_body pf cells game_id team =
     (if length cells < 10 then Inr None
      else
        (let player_name = get_text (cells ! 0) in
         if player_name = [] \<or> player_name = ''Reserves'' \<or> player_name = ''Team Totals''
         then Inr None
         else
           (case fold_exc (player_field_step pf cells) player_fields
                   [(''game_id'', SStr game_id), (''team'', SStr team),
                    (''player_name'', SStr player_name),
                    (''mp'', SStr (if length cells > 1 then get_text (cells ! 1) else ''0''))] of
              (stats, Some e) \<Rightarrow> Inl e
            | (stats, None) \<Rightarrow> Inl NameError)))"

definition parse_player_row ::
  "(string \<Rightarrow> real option) \<Rightarrow> trow \<Rightarrow> string \<Rightarrow> string \<Rightarrow> row option" where
  "parse_player_row pf cells game_id team =
     (case player_row_body pf cells game_id team of Inl e \<Rightarrow> None | Inr r \<Rightarrow> r)"

text \<open>
  \<open>_parse_player_stats\<close>, lines 171-194: the rows between the header and the totals row of
  each side's basic table; a row counts when \<open>_parse_player_row\<close> gives a dictionary that
  is true, that is, not empty.
\<close>

definition player_stats_for ::
  "(string \<Rightarrow> real option) \<Rightarrow> soup \<Rightarrow> string \<Rightarrow> string \<Rightarrow> row list" where
  "player_stats_for pf sp game_id team =
     (case find_table sp (''box-'' @ team @ ''-game-basic'') of
        None \<Rightarrow> []
      | Some basic_table \<Rightarrow>
          concat (map (\<lambda>r. case parse_player_row pf r game_id team of
                              None \<Rightarrow> []
                            | Some player_stat \<Rightarrow> if player_stat = [] then [] else [player_stat])
                      (butlast (tl basic_table))))"

definition parse_player_stats :: "(string \<Rightarrow> real option) \<Rightarrow> soup \<Rightarrow> string \<Rightarrow> row list" where
  "parse_player_stats pf sp game_id =
     player_stats_for pf sp game_id ''home'' @ player_stats_for pf sp game_id ''away''"

text \<open>\<open>_parse_officials\<close>, lines 343-365: at most three links, numbered from one.\<close>

definition parse_officials :: "soup \<Rightarrow> string \<Rightarrow> row list" where
  "parse_officials sp game_id =
     (case officials_links sp of
        None \<Rightarrow> []
      | Some official_links \<Rightarrow>
          map (\<lambda>(i, (text, href)).
                 [(''game_id'', SStr game_id),
                  (''official_name'', SStr (strip text)),
                  (''official_url'', SStr (case href of None \<Rightarrow> '''' | Some h \<Rightarrow> h)),
                  (''position'', SInt (int i))])
              (List.enumerate 1 (take 3 official_links)))"

text \<open>
  The assembly of \<open>parse_html_file\<close>, lines 56-73, on the parsed document: the three lists
  are stored in the dictionary of the basic information under their own keys.
\<close>

definition assemble :: "(string \<Rightarrow> real option) \<Rightarrow> soup \<Rightarrow> string \<Rightarrow> game_data option" where
  "assemble pf sp game_id =
     (case parse_basic_game_info sp game_id of
        None \<Rightarrow> None
      | Some game_data \<Rightarrow>
          if game_data = [] then None
          else
            (let game_data = AList.update ''team_stats''
                               (Rows (parse_team_stats pf sp game_id)) game_data;
                 game_data = AList.update ''player_stats''
                               (Rows (parse_player_stats pf sp game_id)) game_data;
                 game_data = AList.update ''officials''
                               (Rows (parse_officials sp game_id)) game_data
             in Some game_data))"

section \<open>The fetcher (scraper.py, BasketballScraper.get_html_with_retry)\<close>

text \<open>
  The page is the environment: for each attempt, counted from zero, it says whether
  \<open>page.goto\<close> raises, whether the selector wait raises after the settle delay, or which
  markup is returned. The function gives back the markup or \<open>None\<close>, and the model keeps
  the trace of what it did on the way. The throttler is left out.
\<close>

record settings =
  REQUEST_DELAY :: real
  MAX_RETRIES :: int

datatype attempt_outcome = GotoRaises exn | ContentRaises exn | Loaded string

datatype event =
    Goto string
  | SettleSleep real
  | BackoffSleep real
  | Warned string
  | Errored string exn

definition on_failure ::
  "settings \<Rightarrow> string \<Rightarrow> int \<Rightarrow> int \<Rightarrow> exn \<Rightarrow> event list \<times> bool" where
  "on_failure st url max_retries attempt e =
     ((if e = PlaywrightTimeout
       then [Warned url] @ (if attempt = max_retries - 1 then [Errored url e] else [])
       else [Errored url e])
      @ (if attempt = max_retries - 1 then []
         else [BackoffSleep (REQUEST_DELAY st * real_of_int (attempt + 1))]),
      attempt = max_retries - 1)"

fun retry_loop ::
  "settings \<Rightarrow> (int \<Rightarrow> attempt_outcome) \<Rightarrow> string \<Rightarrow> int \<Rightarrow> int list
     \<Rightarrow> event list \<times> string option" where
  "retry_loop st page url max_retries [] = ([], None)"
| "retry_loop st page url max_retries (attempt # rest) =
     (case page attempt of
        Loaded html \<Rightarrow> ([Goto url, SettleSleep (REQUEST_DELAY st)], Some html)
      | GotoRaises e \<Rightarrow>
          (case on_failure st url max_retries attempt e of
             (evs, True) \<Rightarrow> (Goto url # evs, None)
           | (evs, False) \<Rightarrow>
               (case retry_loop st page url max_retries rest of
                  (evs', r) \<Rightarrow> (Goto url # evs @ evs', r)))
      | ContentRaises e \<Rightarrow>
          (case on_failure st url max_retries attempt e of
             (evs, True) \<Rightarrow> (Goto url # SettleSleep (REQUEST_DELAY st) # evs, None)
           | (evs, False) \<Rightarrow>
               (case retry_loop st page url max_retries rest of
                  (evs', r) \<Rightarrow> (Goto url # SettleSleep (REQUEST_DELAY st) # evs @ evs', r))))"

text \<open>\<open>range(n)\<close> and \<open>max_retries or settings.MAX_RETRIES\<close>, where \<open>None\<close> and 0 are false.\<close>

definition py_range :: "int \<Rightarrow> int list" where
  "py_range n = map int [0..<nat n]"

definition get_html_with_retry ::
  "settings \<Rightarrow> (int \<Rightarrow> attempt_outcome) \<Rightarrow> string \<Rightarrow> int option
     \<Rightarrow> event list \<times> string option" where
  "get_html_with_retry st page url max_retries_arg =
     (let max_retries = (case max_retries_arg of
                           None \<Rightarrow> MAX_RETRIES st
                         | Some n \<Rightarrow> if n = 0 then MAX_RETRIES st else n)
      in retry_loop st page url max_retries (py_range max_retries))"

section \<open>Reading a raw document (parse_data_copilot.py and data_processor.py)\<close>

text \<open>
  A file is its bytes; the text read from it is a list of code points. The UTF-8 decoder
  walks the bytes with the state of the sequence it is in: how many continuation bytes are
  still due, the range allowed for the next one, and the value so far. A byte that cannot
  continue the sequence ends it as an error and is looked at again as a first byte. With
  \<open>errors='ignore'\<close> the errors are dropped from the output; without it the first error
  raises \<open>UnicodeDecodeError\<close>. Text mode then turns \<open>\r\n\<close> and \<open>\r\<close> into \<open>\n\<close>.
\<close>

datatype utf8_state = Idle | Pending nat nat nat nat

datatype utf8_item = Cp nat | Err

definition utf8_start :: "nat \<Rightarrow> utf8_item list \<times> utf8_state" where
  "utf8_start b =
     (if b < 128 then ([Cp b], Idle)
      else if 194 \<le> b \<and> b \<le> 223 then ([], Pending 1 128 191 (b - 192))
      else if b = 224 then ([], Pending 2 160 191 0)
      else if b = 237 then ([], Pending 2 128 159 13)
      else if 225 \<le> b \<and> b \<le> 239 then ([], Pending 2 128 191 (b - 224))
      else if b = 240 then ([], Pending 3 144 191 0)
      else if 241 \<le> b \<and> b \<le> 243 then ([], Pending 3 128 191 (b - 240))
      else if b = 244 then ([], Pending 3 128 143 4)
      else ([Err], Idle))"

definition utf8_step :: "utf8_state \<Rightarrow> nat \<Rightarrow> utf8_item list \<times> utf8_state" where
  "utf8_step s b =
     (case s of
        Idle \<Rightarrow> utf8_start b
      | Pending need lo hi acc \<Rightarrow>
          if lo \<le> b \<and> b \<le> hi then
            (if need = 1 then ([Cp (acc * 64 + (b - 128))], Idle)
             else ([], Pending (need - 1) 128 191 (acc * 64 + (b - 128))))
          else (case utf8_start b of (items, s') \<Rightarrow> (Err # items, s')))"

fun utf8_items :: "utf8_state \<Rightarrow> nat list \<Rightarrow> utf8_item list" where
  "utf8_items s [] = (case s of Idle \<Rightarrow> [] | Pending _ _ _ _ \<Rightarrow> [Err])"
| "utf8_items s (b # bs) = (case utf8_step s b of (items, s') \<Rightarrow> items @ utf8_items s' bs)"

definition code_points :: "utf8_item list \<Rightarrow> nat list" where
  "code_points items = concat (map (\<lambda>i. case i of Cp n \<Rightarrow> [n] | Err \<Rightarrow> []) items)"

definition decode_utf8_strict :: "char list \<Rightarrow> exn + nat list" where
  "decode_utf8_strict bytes =
     (let items = utf8_items Idle (map of_char bytes)
      in if Err \<in> set items then Inl UnicodeDecodeError else Inr (code_points items))"

definition decode_utf8_ignore :: "char list \<Rightarrow> nat list" where
  "decode_utf8_ignore bytes = code_points (utf8_items Idle (map of_char bytes))"

definition decode_latin1 :: "char list \<Rightarrow> nat list" where
  "decode_latin1 bytes = map of_char bytes"

fun universal_newlines :: "nat list \<Rightarrow> nat list" where
  "universal_newlines [] = []"
| "universal_newlines [c] = (if c = 13 then [10] else [c])"
| "universal_newlines (c # d # cs) =
     (if c = 13 \<and> d = 10 then 10 # universal_newlines cs
      else if c = 13 then 10 # universal_newlines (d # cs)
      else c # universal_newlines (d # cs))"

text \<open>
  \<open>parse_html\<close> of parse_data_copilot.py, lines 15-25, up to the text it hands to the HTML
  parser: UTF-8 first, ISO-8859-1 when that raises \<open>UnicodeDecodeError\<close>.
\<close>

definition parse_html_read :: "char list \<Rightarrow> exn + nat list option" where
  "parse_html_read bytes =
     (case decode_utf8_strict bytes of
        Inr html \<Rightarrow> Inr (Some (universal_newlines html))
      | Inl e \<Rightarrow>
          if e = UnicodeDecodeError
          then Inr (Some (universal_newlines (decode_latin1 bytes)))
          else Inl e)"

text \<open>
  \<open>DataProcessor.parse_html_file\<close>, lines 46-47:
  \<open>open(file_path, 'r', encoding='utf-8', errors='ignore')\<close>.
\<close>

definition parse_html_file_read :: "char list \<Rightarrow> nat list" where
  "parse_html_file_read bytes = universal_newlines (decode_utf8_ignore bytes)"

text \<open>
  The whole of \<open>parse_html_file\<close>: the file is read, parsed by the HTML parser \<open>bs\<close>, a
  parameter, and assembled.
\<close>

definition parse_html_file ::
  "(nat list \<Rightarrow> soup) \<Rightarrow> (string \<Rightarrow> real option) \<Rightarrow> char list \<Rightarrow> string \<Rightarrow> game_data option" where
  "parse_html_file bs pf bytes file_stem = assemble pf (bs (parse_html_file_read bytes)) file_stem"

section \<open>The store (models.py)\<close>

text \<open>
  The four mapped classes of models.py, each with its columns (and their \<open>default\<close>, \<open>None\<close>
  when there is none) and its relationships. A many-to-one relationship names the foreign
  key column it writes; the collections of \<open>Game\<close> write none.
\<close>

datatype model = Game | TeamGameStats | PlayerGameStats | GameOfficial

definition columns :: "model \<Rightarrow> (string \<times> scalar) list" where
  "columns m = (case m of
     Game \<Rightarrow>
       [(''id'', SNone), (''game_id'', SNone), (''date'', SNone), (''season'', SNone),
        (''home_team'', SNone), (''away_team'', SNone), (''home_score'', SNone),
        (''away_score'', SNone), (''home_won'', SNone)]
   | TeamGameStats \<Rightarrow>
       [(''id'', SNone), (''game_id'', SNone), (''team'', SNone), (''is_home'', SNone),
        (''fg'', SInt 0), (''fga'', SInt 0), (''fg_pct'', SFloat 0), (''fg3'', SInt 0),
        (''fg3a'', SInt 0), (''fg3_pct'', SFloat 0), (''ft'', SInt 0), (''fta'', SInt 0),
        (''ft_pct'', SFloat 0), (''orb'', SInt 0), (''drb'', SInt 0), (''trb'', SInt 0),
        (''ast'', SInt 0), (''stl'', SInt 0), (''blk'', SInt 0), (''tov'', SInt 0),
        (''pf'', SInt 0), (''pts'', SInt 0),
        (''ts_pct'', SFloat 0), (''efg_pct'', SFloat 0), (''fg3a_rate'', SFloat 0),
        (''fta_rate'', SFloat 0), (''orb_pct'', SFloat 0), (''drb_pct'', SFloat 0),
        (''trb_pct'', SFloat 0), (''ast_pct'', SFloat 0), (''stl_pct'', SFloat 0),
        (''blk_pct'', SFloat 0), (''tov_pct'', SFloat 0), (''usg_pct'', SFloat 0),
        (''off_rtg'', SFloat 0), (''def_rtg'', SFloat 0),
        (''fg_max'', SInt 0), (''fga_max'', SInt 0), (''fg3_max'', SInt 0),
        (''fg3a_max'', SInt 0), (''ft_max'', SInt 0), (''fta_max'', SInt 0),
        (''orb_max'', SInt 0), (''drb_max'', SInt 0), (''trb_max'', SInt 0),
        (''ast_max'', SInt 0), (''stl_max'', SInt 0), (''blk_max'', SInt 0),
        (''tov_max'', SInt 0), (''pf_max'', SInt 0), (''pts_max'', SInt 0),
        (''home_game_id'', SNone), (''away_game_id'', SNone)]
   | GameOfficial \<Rightarrow>
       [(''id'', SNone), (''game_id'', SNone), (''official_name'', SNone),
        (''official_url'', SNone), (''position'', SNone)]
   | PlayerGameStats \<Rightarrow>
       [(''id'', SNone), (''game_id'', SNone), (''team'', SNone), (''player_name'', SNone),
        (''player_url'', SNone),
        (''mp'', SStr ''0''), (''fg'', SInt 0), (''fga'', SInt 0), (''fg_pct'', SFloat 0),
        (''fg3'', SInt 0), (''fg3a'', SInt 0), (''fg3_pct'', SFloat 0), (''ft'', SInt 0),
        (''fta'', SInt 0), (''ft_pct'', SFloat 0), (''orb'', SInt 0), (''drb'', SInt 0),
        (''trb'', SInt 0), (''ast'', SInt 0), (''stl'', SInt 0), (''blk'', SInt 0),
        (''tov'', SInt 0), (''pf'', SInt 0), (''pts'', SInt 0), (''plus_minus'', SInt 0),
        (''ts_pct'', SFloat 0), (''efg_pct'', SFloat 0), (''fg3a_rate'', SFloat 0),
        (''fta_rate'', SFloat 0), (''orb_pct'', SFloat 0), (''drb_pct'', SFloat 0),
        (''trb_pct'', SFloat 0), (''ast_pct'', SFloat 0), (''stl_pct'', SFloat 0),
        (''blk_pct'', SFloat 0), (''tov_pct'', SFloat 0), (''usg_pct'', SFloat 0),
        (''off_rtg'', SFloat 0), (''def_rtg'', SFloat 0), (''bpm'', SFloat 0)])"

definition relationships :: "model \<Rightarrow> (string \<times> string option) list" where
  "relationships m = (case m of
     Game \<Rightarrow> [(''home_stats'', None), (''away_stats'', None), (''officials'', None)]
   | TeamGameStats \<Rightarrow> [(''home_game'', Some ''home_game_id''), (''away_game'', Some ''away_game_id'')]
   | GameOfficial \<Rightarrow> [(''game'', Some ''game_id'')]
   | PlayerGameStats \<Rightarrow> [])"

text \<open>
  \<open>hasattr\<close> on a mapped class or on one of its objects, for the keys a dictionary of
  this program can carry: the columns and the relationships. (The attributes every Python
  object has, such as \<open>__class__\<close>, are not keys of these dictionaries.)
\<close>

definition has_attr :: "model \<Rightarrow> string \<Rightarrow> bool" where
  "has_attr m k = (k \<in> set (map fst (columns m)) \<or> k \<in> set (map fst (relationships m)))"

definition is_relationship :: "model \<Rightarrow> string \<Rightarrow> bool" where
  "is_relationship m k = (k \<in> set (map fst (relationships m)))"

text \<open>
  \<open>setattr\<close> on an object of a mapped class, with a scalar: a column takes any value; a
  many-to-one relationship takes \<open>None\<close> and refuses everything else, which is no mapped
  object (\<open>AttributeError\<close>). The object in memory is the dictionary of what was set.
\<close>

definition set_attribute :: "model \<Rightarrow> row \<Rightarrow> string \<Rightarrow> scalar \<Rightarrow> exn + row" where
  "set_attribute m inst k v =
     (if is_relationship m k
      then (if v = SNone then Inr (AList.update k SNone inst) else Inl AttributeError)
      else Inr (AList.update k v inst))"

fun fold_err :: "('s \<Rightarrow> 'a \<Rightarrow> exn + 's) \<Rightarrow> 'a list \<Rightarrow> 's \<Rightarrow> exn + 's" where
  "fold_err f [] s = Inr s"
| "fold_err f (x # xs) s = (case f s x of Inl e \<Rightarrow> Inl e | Inr s' \<Rightarrow> fold_err f xs s')"

text \<open>
  The constructor every mapped class inherits from the declarative base, called as
  \<open>Cls(**kwargs)\<close>: it goes through the keywords in order, raises \<open>TypeError\<close> at the first
  one that is no attribute of the class, and sets the others.
\<close>

definition construct :: "model \<Rightarrow> row \<Rightarrow> exn + row" where
  "construct m kwargs =
     fold_err (\<lambda>inst (k, v). if \<not> has_attr m k then Inl TypeError else set_attribute m inst k v)
       kwargs []"

text \<open>
  \<open>Game(**game_data)\<close>, where a value may also be a list of dictionaries. A collection of
  \<open>Game\<close> takes the empty list; a list of dictionaries is refused because a dictionary is
  no mapped object (\<open>AttributeError\<close>), and a scalar because it is no collection
  (\<open>TypeError\<close>). A list given to a column is refused by the database driver when the row
  is flushed (\<open>StatementError\<close>); the flush follows the constructor with nothing persistent
  in between, so the model raises it here.
\<close>

definition game_set :: "row \<Rightarrow> string \<times> pyval \<Rightarrow> exn + row" where
  "game_set inst kv =
     (case kv of (k, v) \<Rightarrow>
        if \<not> has_attr Game k then Inl TypeError
        else if is_relationship Game k then
          (case v of Rows rs \<Rightarrow> if rs = [] then Inr inst else Inl AttributeError
                   | Scalar x \<Rightarrow> Inl TypeError)
        else
          (case v of Scalar x \<Rightarrow> Inr (AList.update k x inst)
                   | Rows rs \<Rightarrow> Inl StatementError))"

definition game_construct :: "game_data \<Rightarrow> exn + row" where
  "game_construct game_data = fold_err game_set game_data []"

text \<open>
  The database holds the rows of the four tables in insertion order. A new object becomes
  a row with every column: the value set, or the column's default when nothing or \<open>None\<close>
  was set (the mapper leaves a \<open>None\<close> out of the \<open>INSERT\<close>, so the default applies, and a
  column without a default is \<open>NULL\<close>); a relationship set to \<open>None\<close> clears its foreign
  key; a missing \<open>id\<close> is the next integer of the table.
\<close>

record store =
  games :: "row list"
  team_game_stats :: "row list"
  player_game_stats :: "row list"
  game_officials :: "row list"

definition table_of :: "model \<Rightarrow> store \<Rightarrow> row list" where
  "table_of m db = (case m of Game \<Rightarrow> games db | TeamGameStats \<Rightarrow> team_game_stats db
     | PlayerGameStats \<Rightarrow> player_game_stats db | GameOfficial \<Rightarrow> game_officials db)"

definition set_table :: "model \<Rightarrow> row list \<Rightarrow> store \<Rightarrow> store" where
  "set_table m rows db = (case m of
       Game \<Rightarrow> db\<lparr>games := rows\<rparr>
     | TeamGameStats \<Rightarrow> db\<lparr>team_game_stats := rows\<rparr>
     | PlayerGameStats \<Rightarrow> db\<lparr>player_game_stats := rows\<rparr>
     | GameOfficial \<Rightarrow> db\<lparr>game_officials := rows\<rparr>)"

definition clear_fks :: "model \<Rightarrow> row \<Rightarrow> row" where
  "clear_fks m inst =
     fold (\<lambda>(r, fko) rw. case fko of
                            None \<Rightarrow> rw
                          | Some fk \<Rightarrow> if map_of inst r = Some SNone
                                       then AList.update fk SNone rw else rw)
          (relationships m)
          (filter (\<lambda>(k, v). \<not> is_relationship m k) inst)"

definition next_id :: "row list \<Rightarrow> int" where
  "next_id rows =
     1 + fold (\<lambda>r acc. case map_of r ''id'' of Some (SInt n) \<Rightarrow> max n acc | _ \<Rightarrow> acc) rows 0"

definition new_row :: "model \<Rightarrow> row \<Rightarrow> row list \<Rightarrow> row" where
  "new_row m inst rows =
     (let full = map (\<lambda>(c, dflt). (c, case map_of inst c of
                                          Some v \<Rightarrow> if v = SNone then dflt else v
                                        | None \<Rightarrow> dflt))
                     (columns m);
          full = clear_fks m (full @ filter (\<lambda>(k, v). is_relationship m k) inst)
      in if map_of full ''id'' = Some SNone
         then AList.update ''id'' (SInt (next_id rows)) full else full)"

definition insert_row :: "store \<Rightarrow> model \<times> row \<Rightarrow> store" where
  "insert_row db mi =
     (case mi of (m, inst) \<Rightarrow> set_table m (table_of m db @ [new_row m inst (table_of m db)]) db)"

definition insert_all :: "(model \<times> row) list \<Rightarrow> store \<Rightarrow> store" where
  "insert_all pending db = foldl insert_row db pending"

text \<open>
  \<open>db.commit()\<close>. The database's verdict on a flush is the parameter \<open>engine\<close>: from the
  committed state and the state the flush would leave, it says whether a statement fails
  (a constraint, a value the driver cannot bind, the disk) and with which exception. With
  nothing to write no statement is sent. Foreign keys, uniqueness and \<open>nullable=False\<close> are
  the database's to check, so they are part of the parameter.
\<close>

type_synonym engine = "store \<Rightarrow> store \<Rightarrow> exn option"

definition commit :: "engine \<Rightarrow> store \<Rightarrow> store \<Rightarrow> exn + store" where
  "commit eng db cand =
     (if cand = db then Inr db
      else (case eng db cand of Some e \<Rightarrow> Inl e | None \<Rightarrow> Inr cand))"

section \<open>Ingest (data_processor.py, DataProcessor.save_game_to_database)\<close>

text \<open>
  \<open>game_data.get(key, [])\<close> as the \<open>for\<close> loops use it: a list of dictionaries, nothing when
  the key is absent, and \<open>TypeError\<close> for a scalar, which either cannot be iterated or, a
  string, gives characters that are no keyword mappings; the empty string gives nothing.
\<close>

definition children :: "game_data \<Rightarrow> string \<Rightarrow> exn + row list" where
  "children game_data key =
     (case map_of game_data key of
        None \<Rightarrow> Inr []
      | Some (Rows rs) \<Rightarrow> Inr rs
      | Some (Scalar v) \<Rightarrow> if v = SStr [] then Inr [] else Inl TypeError)"

definition add_each :: "model \<Rightarrow> row list \<Rightarrow> (model \<times> row) list \<Rightarrow> exn + (model \<times> row) list" where
  "add_each m rows pending =
     fold_err (\<lambda>p kwargs. case construct m kwargs of
                             Inl e \<Rightarrow> Inl e
                           | Inr inst \<Rightarrow> Inr (p @ [(m, inst)]))
              rows pending"

definition pending_children :: "game_data \<Rightarrow> exn + (model \<times> row) list" where
  "pending_children game_data =
     (case children game_data ''team_stats'' of Inl e \<Rightarrow> Inl e | Inr ts \<Rightarrow>
      (case add_each TeamGameStats ts [] of Inl e \<Rightarrow> Inl e | Inr p1 \<Rightarrow>
       (case children game_data ''player_stats'' of Inl e \<Rightarrow> Inl e | Inr ps \<Rightarrow>
        (case add_each PlayerGameStats ps p1 of Inl e \<Rightarrow> Inl e | Inr p2 \<Rightarrow>
         (case children game_data ''officials'' of Inl e \<Rightarrow> Inl e | Inr offs \<Rightarrow>
            add_each GameOfficial offs p2)))))"

datatype log = LogSkipped | LogSaved | LogUpdated | LogError exn

text \<open>
  The key of the existence check: \<open>game_data['game_id']\<close> raises \<open>KeyError\<close> when the key is
  absent, and a list cannot be bound as the parameter of the query.
\<close>

definition game_id_of :: "game_data \<Rightarrow> exn + scalar" where
  "game_id_of game_data =
     (case map_of game_data ''game_id'' of
        None \<Rightarrow> Inl KeyError
      | Some (Rows rs) \<Rightarrow> Inl StatementError
      | Some (Scalar v) \<Rightarrow> Inr v)"

text \<open>
  The body of the \<open>try\<close>. The first component is what the database holds when the body
  ends or raises: \<open>db.rollback()\<close> drops what was added since the last commit and leaves
  what was committed.
\<close>

definition save_body :: "engine \<Rightarrow> store \<Rightarrow> game_data \<Rightarrow> store \<times> (exn + log)" where
  "save_body eng db game_data =
     (case game_id_of game_data of
        Inl e \<Rightarrow> (db, Inl e)
      | Inr gid \<Rightarrow>
          (case find (\<lambda>r. map_of r ''game_id'' = Some gid) (games db) of
             Some existing_game \<Rightarrow> (db, Inr LogSkipped)
           | None \<Rightarrow>
               (case game_construct game_data of
                  Inl e \<Rightarrow> (db, Inl e)
                | Inr game \<Rightarrow>
                    (case commit eng db (insert_row db (Game, game)) of
                       Inl e \<Rightarrow> (db, Inl e)
                     | Inr db1 \<Rightarrow>
                         (case pending_children game_data of
                            Inl e \<Rightarrow> (db1, Inl e)
                          | Inr pending \<Rightarrow>
                              (case commit eng db1 (insert_all pending db1) of
                                 Inl e \<Rightarrow> (db1, Inl e)
                               | Inr db2 \<Rightarrow> (db2, Inr LogSaved)))))))"

text \<open>
  \<open>save_game_to_database\<close> returns \<open>None\<close> on every path; what it leaves is the database
  and one line in the log.
\<close>

definition save_game_to_database :: "engine \<Rightarrow> store \<Rightarrow> game_data \<Rightarrow> store \<times> log" where
  "save_game_to_database eng db game_data =
     (case save_body eng db game_data of
        (db', Inl e) \<Rightarrow> (db', LogError e)
      | (db', Inr l) \<Rightarrow> (db', l))"

section \<open>Update (scrape_recent_data.py, update_game_data)\<close>

text \<open>
  The session of \<open>update_game_data\<close>. It is made with \<open>autoflush=False\<close>, so every query
  reads the committed rows; an object a query returns is the one in memory if the row was
  loaded before, with what was set on it. \<open>loaded\<close> holds those objects by table and
  position, \<open>pending\<close> the objects added, and \<open>bad\<close> says that a list was assigned to a column
  of the game, which the driver refuses at the flush.
\<close>

record session =
  loaded :: "((model \<times> nat) \<times> row) list"
  pending :: "(model \<times> row) list"
  bad :: bool














section \<open>Predicates used in the properties\<close>

text \<open>Every value of a dictionary of statistics is the integer or the float zero.\<close>

definition zero_valued :: "row \<Rightarrow> bool" where
  "zero_valued stats = (\<forall>v \<in> snd ` set stats. v = SInt 0 \<or> v = SFloat 0)"

definition keys :: "('k \<times> 'v) list \<Rightarrow> 'k set" where
  "keys d = fst ` set d"

section \<open>Example inputs\<close>

text \<open>
  A box score with a line score and the basic table of the home side (three player rows
  with 10, 25 and 8 points, then the totals row), and a line score with equal totals.
\<close>

definition home_basic_table :: table where
  "home_basic_table =
     [[''Starters'', ''MP'', ''FG'', ''FGA'', ''FG%'', ''3P'', ''3PA'', ''3P%'', ''FT'', ''FTA'',
       ''FT%'', ''ORB'', ''DRB'', ''TRB'', ''AST'', ''STL'', ''BLK'', ''TOV'', ''PF'', ''PTS'', ''+/-''],
      [''A. Guard'', ''30:00'', ''4'', ''9'', ''.444'', ''1'', ''2'', ''.500'', ''1'', ''1'',
       ''1.000'', ''1'', ''2'', ''3'', ''4'', ''1'', ''0'', ''2'', ''3'', ''10'', ''+3''],
      [''B. Wing'', ''35:10'', ''9'', ''15'', ''.600'', ''3'', ''5'', ''.600'', ''4'', ''4'',
       ''1.000'', ''0'', ''5'', ''5'', ''2'', ''0'', ''1'', ''1'', ''2'', ''25'', ''+7''],
      [''C. Big'', ''20:00'', ''3'', ''6'', ''.500'', ''0'', ''0'', ''-'', ''2'', ''4'',
       ''.500'', ''3'', ''4'', ''7'', ''0'', ''0'', ''2'', ''1'', ''4'', ''8'', ''-2''],
      [''Team Totals'', ''240'', ''38'', ''80'', ''.475'', ''10'', ''25'', ''.400'', ''15'', ''20'',
       ''.750'', ''9'', ''30'', ''39'', ''22'', ''6'', ''4'', ''11'', ''18'', ''101'', '''']]"

definition box_doc :: soup where
  "box_doc = \<lparr> tables =
     [(''line_score'',
       [['''', ''1'', ''2'', ''3'', ''4'', ''T''],
        [''BOS'', ''25'', ''25'', ''25'', ''25'', ''100''],
        [''LAL'', ''30'', ''20'', ''30'', ''21'', ''101'']]),
      (''box-home-game-basic'', home_basic_table)],
     officials_links = Some [(''Ref One'', Some ''/referees/one.html''), (''Ref Two'', None)] \<rparr>"

definition tie_doc :: soup where
  "tie_doc = \<lparr> tables =
     [(''line_score'',
       [['''', ''1'', ''2'', ''3'', ''4'', ''T''],
        [''BOS'', ''25'', ''25'', ''25'', ''25'', ''100''],
        [''LAL'', ''30'', ''20'', ''30'', ''20'', ''100'']])],
     officials_links = None \<rparr>"

text \<open>
  A table whose only row between the header and the totals has a single cell; a float
  parser for plain decimals; a database that accepts every flush; the empty database.
\<close>

definition one_cell_table :: table where
  "one_cell_table = [[''Starters'', ''MP''], [''Reserves''], [''Team Totals'', ''240'']]"

definition decimal_float :: "string \<Rightarrow> real option" where
  "decimal_float s =
     (let a = takeWhile (\<lambda>c. c \<noteq> CHR ''.'') s;
          b = drop 1 (dropWhile (\<lambda>c. c \<noteq> CHR ''.'') s)
      in if a @ b \<noteq> [] \<and> list_all is_digit (a @ b)
         then Some (real_of_int (foldl (\<lambda>n c. 10 * n + digit_val c) 0 (a @ b)) / 10 ^ length b)
         else None)"

definition accept_all :: engine where
  "accept_all db cand = None"

definition empty_store :: store where
  "empty_store = \<lparr>games = [], team_game_stats = [], player_game_stats = [], game_officials = []\<rparr>"

text \<open>What a trace of the fetcher shows: the attempts made and the back-off sleeps.\<close>

definition attempts_made :: "event list \<Rightarrow> nat" where
  "attempts_made evs = length (filter (\<lambda>e. case e of Goto u \<Rightarrow> True | _ \<Rightarrow> False) evs)"

definition backoffs :: "event list \<Rightarrow> real list" where
  "backoffs evs = concat (map (\<lambda>e. case e of BackoffSleep d \<Rightarrow> [d] | _ \<Rightarrow> []) evs)"

definition is_loaded :: "attempt_outcome \<Rightarrow> bool" where
  "is_loaded r = (case r of Loaded html \<Rightarrow> True | _ \<Rightarrow> False)"

definition effective_retries :: "settings \<Rightarrow> int option \<Rightarrow> int" where
  "effective_retries st max_retries_arg =
     (case max_retries_arg of None \<Rightarrow> MAX_RETRIES st
      | Some n \<Rightarrow> if n = 0 then MAX_RETRIES st else n)"

text \<open>
  The settings of config.py, and a page that times out, then fails otherwise, then
  loads.
\<close>

definition default_settings :: settings where
  "default_settings = \<lparr>REQUEST_DELAY = 1, MAX_RETRIES = 3\<rparr>"

definition flaky_page :: "int \<Rightarrow> attempt_outcome" where
  "flaky_page i =
     (if i = 0 then GotoRaises PlaywrightTimeout
      else if i = 1 then ContentRaises (OtherError ''net::ERR_CONNECTION_RESET'')
      else Loaded ''<div id=content></div>'')"

text \<open>The bytes of \<open>Jos\<close> followed by E9, an e with acute accent in ISO-8859-1.\<close>

definition latin1_name :: "char list" where
  "latin1_name = [CHR 0x4A, CHR 0x6F, CHR 0x73, CHR 0xE9]"

text \<open>
  A document with a line score and nothing else, the record \<open>assemble\<close> makes of it, and
  the record of the basic information alone.
\<close>

definition plain_doc :: soup where
  "plain_doc = \<lparr> tables =
     [(''line_score'',
       [['''', ''1'', ''2'', ''3'', ''4'', ''T''],
        [''BOS'', ''25'', ''25'', ''25'', ''25'', ''100''],
        [''LAL'', ''30'', ''20'', ''30'', ''21'', ''101'']])],
     officials_links = None \<rparr>"

definition basic_info :: game_data where
  "basic_info =
     [(''game_id'', Scalar (SStr ''202306150LAL'')),
      (''date'', Scalar (SDate (Date 2023 6 15))),
      (''season'', Scalar (SInt 2022)),
      (''home_team'', Scalar (SStr ''LAL'')),
      (''away_team'', Scalar (SStr ''BOS'')),
      (''home_score'', Scalar (SInt 101)),
      (''away_score'', Scalar (SInt 100)),
      (''home_won'', Scalar (SBool True))]"

definition parsed_game :: game_data where
  "parsed_game = basic_info @
     [(''team_stats'', Rows []), (''player_stats'', Rows []), (''officials'', Rows [])]"







text \<open>What the update makes of the stored game row: the three values of the payload set.\<close>

definition rescored :: "scalar \<Rightarrow> scalar \<Rightarrow> scalar \<Rightarrow> row \<Rightarrow> row" where
  "rescored home_score away_score home_won g =
     clear_fks Game (AList.update ''home_won'' home_won
       (AList.update ''away_score'' away_score
         (AList.update ''home_score'' home_score g)))"





text \<open>
  The rows of one table after the objects \<open>insts\<close> of its class were inserted one after
  the other, which is what \<open>insert_all\<close> does to that table.
\<close>

definition append_new :: "model \<Rightarrow> row list \<Rightarrow> row list \<Rightarrow> row list" where
  "append_new m insts rows = foldl (\<lambda>rows inst. rows @ [new_row m inst rows]) rows insts"




section \<open>Properties\<close>

subsection \<open>The line score and the season\<close>

lemma line_score_rows_ok:
  "map (\<lambda>cells. py_int (get_text (last cells))) (filter (\<lambda>cells. 2 \<le> length cells) rows)
     = map Inr scores \<Longrightarrow>
   line_score_rows rows (ts, ss) =
     Inr (ts @ map (\<lambda>cells. get_text (hd cells)) (filter (\<lambda>cells. 2 \<le> length cells) rows),
          ss @ scores)"
proof (induction rows arbitrary: ts ss scores)
  case Nil
  then show ?case by simp
next
  case (Cons cells rows)
  show ?case
  proof (cases "2 \<le> length cells")
    case False
    with Cons show ?thesis by simp
  next
    case True
    with Cons.prems obtain n rest where sc: "scores = n # rest"
      and n: "py_int (get_text (last cells)) = Inr n"
      and rest: "map (\<lambda>cells. py_int (get_text (last cells)))
                   (filter (\<lambda>cells. 2 \<le> length cells) rows) = map Inr rest"
      by (cases scores) auto
    from Cons.IH[OF rest, of "ts @ [get_text (hd cells)]" "ss @ [n]"] True n sc
    show ?thesis by simp
  qed
qed

lemma box_doc_info:
  "parse_basic_game_info box_doc ''202306150LAL'' = Some
     [(''game_id'', Scalar (SStr ''202306150LAL'')),
      (''date'', Scalar (SDate (Date 2023 6 15))),
      (''season'', Scalar (SInt 2022)),
      (''home_team'', Scalar (SStr ''LAL'')),
      (''away_team'', Scalar (SStr ''BOS'')),
      (''home_score'', Scalar (SInt 101)),
      (''away_score'', Scalar (SInt 100)),
      (''home_won'', Scalar (SBool True))]"
  by code_simp

text \<open>
  C4, as the code has it: when the id starts with a date and exactly two rows after the
  header of the line score have two cells or more, with integer totals in their last
  cells, the record names the first of them as the away team and the second as the home
  team, with their totals, and \<open>home_won\<close> says whether the home total is the greater.
  Nothing compares the totals for equality.
\<close>

theorem assemble_two_teams:
  assumes date: "strptime_Ymd (take 8 game_id) = Inr game_date"
    and tbl: "find_table sp ''line_score'' = Some line_score_table"
    and two: "filter (\<lambda>cells. 2 \<le> length cells) (tl line_score_table) = [r1, r2]"
    and s1: "py_int (get_text (last r1)) = Inr away_score"
    and s2: "py_int (get_text (last r2)) = Inr home_score"
  shows "parse_basic_game_info sp game_id = Some
     [(''game_id'', Scalar (SStr game_id)),
      (''date'', Scalar (SDate game_date)),
      (''season'', Scalar (SInt (season_of game_date))),
      (''home_team'', Scalar (SStr (get_text (hd r2)))),
      (''away_team'', Scalar (SStr (get_text (hd r1)))),
      (''home_score'', Scalar (SInt home_score)),
      (''away_score'', Scalar (SInt away_score)),
      (''home_won'', Scalar (SBool (home_score > away_score)))]"
proof -
  have rows: "line_score_rows (tl line_score_table) ([], []) =
      Inr ([get_text (hd r1), get_text (hd r2)], [away_score, home_score])"
    using line_score_rows_ok[of "tl line_score_table" "[away_score, home_score]" "[]" "[]"]
      two s1 s2 by simp
  have "length (filter (\<lambda>cells. 2 \<le> length cells) (tl line_score_table))
          \<le> length (tl line_score_table)"
    by (rule length_filter_le)
  with two have len: "\<not> length (tl line_score_table) < 2" by simp
  show ?thesis
    unfolding parse_basic_game_info_def basic_game_info_body_def
    using date tbl rows len by (simp add: Let_def)
qed

theorem assemble_two_teams_witness:
  "strptime_Ymd (take 8 ''202306150LAL'') = Inr (Date 2023 6 15)
   \<and> find_table box_doc ''line_score'' = Some
        [['''', ''1'', ''2'', ''3'', ''4'', ''T''],
         [''BOS'', ''25'', ''25'', ''25'', ''25'', ''100''],
         [''LAL'', ''30'', ''20'', ''30'', ''21'', ''101'']]
   \<and> py_int (get_text ''100'') = Inr 100 \<and> py_int (get_text ''101'') = Inr 101
   \<and> parse_basic_game_info box_doc ''202306150LAL'' = Some
     [(''game_id'', Scalar (SStr ''202306150LAL'')),
      (''date'', Scalar (SDate (Date 2023 6 15))),
      (''season'', Scalar (SInt (season_of (Date 2023 6 15)))),
      (''home_team'', Scalar (SStr (get_text ''LAL''))),
      (''away_team'', Scalar (SStr (get_text ''BOS''))),
      (''home_score'', Scalar (SInt 101)),
      (''away_score'', Scalar (SInt 100)),
      (''home_won'', Scalar (SBool ((101::int) > 100)))]"
proof -
  have d: "strptime_Ymd (take 8 ''202306150LAL'') = Inr (Date 2023 6 15)"
    by code_simp
  have t: "find_table box_doc ''line_score'' = Some
        [['''', ''1'', ''2'', ''3'', ''4'', ''T''],
         [''BOS'', ''25'', ''25'', ''25'', ''25'', ''100''],
         [''LAL'', ''30'', ''20'', ''30'', ''21'', ''101'']]"
    by code_simp
  have f: "filter (\<lambda>cells. 2 \<le> length cells)
             (tl [['''', ''1'', ''2'', ''3'', ''4'', ''T''],
                  [''BOS'', ''25'', ''25'', ''25'', ''25'', ''100''],
                  [''LAL'', ''30'', ''20'', ''30'', ''21'', ''101'']])
           = [[''BOS'', ''25'', ''25'', ''25'', ''25'', ''100''],
              [''LAL'', ''30'', ''20'', ''30'', ''21'', ''101'']]"
    by simp
  have a: "py_int (get_text (last [''BOS'', ''25'', ''25'', ''25'', ''25'', ''100''])) = Inr 100"
    by code_simp
  have h: "py_int (get_text (last [''LAL'', ''30'', ''20'', ''30'', ''21'', ''101''])) = Inr 101"
    by code_simp
  have a': "py_int (get_text ''100'') = Inr 100" by code_simp
  have h': "py_int (get_text ''101'') = Inr 101" by code_simp
  from assemble_two_teams[OF d t f a h] d t a' h' show ?thesis by simp
qed

text \<open>
  C4 as the specification states it, refuted: the line score of \<open>tie_doc\<close> gives both
  teams 100 points, and the record is produced with equal scores.
\<close>

theorem tie_is_assembled:
  "parse_basic_game_info tie_doc ''202306150LAL'' = Some
     [(''game_id'', Scalar (SStr ''202306150LAL'')),
      (''date'', Scalar (SDate (Date 2023 6 15))),
      (''season'', Scalar (SInt 2022)),
      (''home_team'', Scalar (SStr ''LAL'')),
      (''away_team'', Scalar (SStr ''BOS'')),
      (''home_score'', Scalar (SInt 100)),
      (''away_score'', Scalar (SInt 100)),
      (''home_won'', Scalar (SBool False))]"
  by code_simp

text \<open>
  C5: in every record built, the season is the year of the date taken from the id, less
  one exactly when the month is before July; 2023-06-15 gives 2022 and 2023-10-15 gives
  2023.
\<close>

theorem season_derivation:
  assumes "parse_basic_game_info sp game_id = Some game_data"
  shows "(\<exists>game_date. strptime_Ymd (take 8 game_id) = Inr game_date
            \<and> map_of game_data ''date'' = Some (Scalar (SDate game_date))
            \<and> map_of game_data ''season'' =
                Some (Scalar (SInt (year game_date - (if month game_date < 7 then 1 else 0)))))
         \<and> season_of (Date 2023 6 15) = 2022 \<and> season_of (Date 2023 10 15) = 2023"
proof -
  from assms obtain game_date where d: "strptime_Ymd (take 8 game_id) = Inr game_date"
    unfolding parse_basic_game_info_def basic_game_info_body_def
    by (cases "strptime_Ymd (take 8 game_id)") auto
  from assms d have "map_of game_data ''date'' = Some (Scalar (SDate game_date))
      \<and> map_of game_data ''season'' = Some (Scalar (SInt (season_of game_date)))"
    unfolding parse_basic_game_info_def basic_game_info_body_def
    by (auto simp: Let_def split: option.splits sum.splits if_splits prod.splits)
  moreover have "season_of game_date = year game_date - (if month game_date < 7 then 1 else 0)"
    by (simp add: season_of_def)
  moreover have "season_of (Date 2023 6 15) = 2022" "season_of (Date 2023 10 15) = 2023"
    by (simp_all add: season_of_def)
  ultimately show ?thesis using d by simp
qed

theorem season_derivation_witness:
  "parse_basic_game_info box_doc ''202306150LAL'' \<noteq> None
   \<and> (\<exists>game_date. strptime_Ymd (take 8 ''202306150LAL'') = Inr game_date
        \<and> game_date = Date 2023 6 15
        \<and> map_of (the (parse_basic_game_info box_doc ''202306150LAL'')) ''season''
            = Some (Scalar (SInt 2022)))"
proof -
  have d: "strptime_Ymd (take 8 ''202306150LAL'') = Inr (Date 2023 6 15)"
    by code_simp
  from season_derivation[OF box_doc_info] d box_doc_info show ?thesis
    by simp
qed

subsection \<open>The stat mapper\<close>

lemma digits_value_error: "digits_value acc s = Inl e \<Longrightarrow> e = ValueError"
  by (induction acc s rule: digits_value.induct) (auto split: if_splits)

lemma py_nat_error: "py_nat s = Inl e \<Longrightarrow> e = ValueError"
  by (auto simp: py_nat_def dest: digits_value_error split: list.splits if_splits)

lemma py_int_error: "py_int s = Inl e \<Longrightarrow> e = ValueError"
  by (cases "py_nat (tl (strip s))")
     (auto simp: py_int_def dest: py_nat_error split: list.splits if_splits)

text \<open>
  On a cell of the document the two helpers do what their names say: the number read
  from the text, and zero for a text that is empty or no number. On \<open>None\<close> and on a
  string they give zero, because neither has \<open>get_text\<close>.
\<close>

lemma safe_int_Tag:
  "safe_int (Tag c) = Inr (case py_int (get_text c) of Inl e \<Rightarrow> 0 | Inr n \<Rightarrow> n)"
proof (cases "py_int (get_text c)")
  case (Inl e)
  then have "e = ValueError" by (rule py_int_error)
  with Inl show ?thesis by (simp add: safe_int_def obj_get_text_def)
next
  case (Inr n)
  then have "get_text c \<noteq> []" by (auto simp: py_int_def strip_def)
  with Inr show ?thesis by (simp add: safe_int_def obj_get_text_def)
qed

lemma safe_float_Tag:
  "safe_float pf (Tag c) =
     Inr (if get_text c = [] then 0 else case pf (get_text c) of None \<Rightarrow> 0 | Some x \<Rightarrow> x)"
  by (simp add: safe_float_def obj_get_text_def split: option.splits)

lemma safe_int_NoneObj: "safe_int NoneObj = Inr 0"
  by (simp add: safe_int_def obj_get_text_def)

lemma safe_float_NoneObj: "safe_float pf NoneObj = Inr 0"
  by (simp add: safe_float_def obj_get_text_def)

lemma safe_int_Str: "safe_int (Str s) = Inr 0"
  by (simp add: safe_int_def obj_get_text_def)

lemma safe_float_Str: "safe_float pf (Str s) = Inr 0"
  by (simp add: safe_float_def obj_get_text_def)

text \<open>
  \<open>_parse_stats_table\<close> hands the helpers the text it has already taken out of the cell, a
  string. So every value it stores, total or maximum, is zero, whatever the table holds.
\<close>

lemma zero_valued_update:
  "zero_valued stats \<Longrightarrow> v = SInt 0 \<or> v = SFloat 0 \<Longrightarrow> zero_valued (AList.update k v stats)"
  by (induction stats) (auto simp: zero_valued_def)

lemma zero_valued_lookup:
  "zero_valued stats \<Longrightarrow> map_of stats k = Some v \<Longrightarrow> v = SInt 0 \<or> v = SFloat 0"
  by (auto simp: zero_valued_def dest!: map_of_SomeD)

lemma py_max_zero:
  "a = SInt 0 \<or> a = SFloat 0 \<Longrightarrow> b = SInt 0 \<or> b = SFloat 0 \<Longrightarrow> py_max a b = Inr a"
  by (auto simp: py_max_def num_of_def)

lemma fold_exc_invariant:
  assumes "\<And>s x. P s \<Longrightarrow> P (fst (f s x))" and "P s"
  shows "P (fst (fold_exc f xs s))"
  using assms(2)
proof (induction xs arbitrary: s)
  case Nil
  then show ?case by simp
next
  case (Cons x xs)
  obtain s' r where fx: "f s x = (s', r)" by (cases "f s x")
  with assms(1)[OF Cons.prems, of x] have "P s'" by simp
  with Cons.IH[of s'] fx show ?case by (cases r) auto
qed

lemma totals_step_zero:
  "zero_valued stats \<Longrightarrow> zero_valued (fst (totals_step pf st mp stats ic))"
  by (cases ic)
     (auto simp: totals_step_def Let_def safe_int_Str safe_float_Str
           intro: zero_valued_update split: option.splits)

lemma max_step_zero:
  assumes "zero_valued stats"
  shows "zero_valued (fst (max_step pf mp stats jc))"
proof (cases jc)
  case (Pair j cell)
  show ?thesis
  proof (cases "map_of mp j")
    case None
    with Pair assms show ?thesis by (simp add: max_step_def)
  next
    case (Some name)
    let ?k = "name @ ''_max''"
    have cur_i: "(case map_of stats ?k of None \<Rightarrow> SInt 0 | Some v \<Rightarrow> v) = SInt 0
        \<or> (case map_of stats ?k of None \<Rightarrow> SInt 0 | Some v \<Rightarrow> v) = SFloat 0"
      using zero_valued_lookup[OF assms, of "name @ ''_max''"] by (auto split: option.splits)
    have cur_f: "(case map_of stats ?k of None \<Rightarrow> SFloat 0 | Some v \<Rightarrow> v) = SInt 0
        \<or> (case map_of stats ?k of None \<Rightarrow> SFloat 0 | Some v \<Rightarrow> v) = SFloat 0"
      using zero_valued_lookup[OF assms, of "name @ ''_max''"] by (auto split: option.splits)
    from Pair Some assms cur_i cur_f show ?thesis
      by (auto simp: max_step_def Let_def safe_int_Str safe_float_Str py_max_zero
               intro!: zero_valued_update)
  qed
qed

lemma max_row_zero:
  "zero_valued stats \<Longrightarrow> zero_valued (fst (max_row pf mp stats cells))"
  unfolding max_row_def by (rule fold_exc_invariant[where P = zero_valued]) (rule max_step_zero)

lemma parse_stats_table_zero: "zero_valued (parse_stats_table pf tbl st)"
proof -
  have z0: "zero_valued []" by (simp add: zero_valued_def)
  have t: "zero_valued (fst (fold_exc (totals_step pf st mp) xs []))" for mp xs
    by (rule fold_exc_invariant[where P = zero_valued, OF _ z0]) (rule totals_step_zero)
  have m: "zero_valued s \<Longrightarrow> zero_valued (fst (fold_exc (max_row pf mp) rs s))" for mp rs s
    by (rule fold_exc_invariant[where P = zero_valued]) (rule max_row_zero)
  show ?thesis
    unfolding parse_stats_table_def stats_table_body_def
    using z0 t m
    by (auto simp: Let_def split: prod.splits option.splits) (metis fst_conv)+
qed

text \<open>
  C6, at the input where the code leaves it: the totals row of \<open>home_basic_table\<close> reads
  101 points and a field-goal percentage of .475. The helper gives 101 for the cell and 0
  for its text, and the mapper, which passes the text, stores 0 and 0.0.
\<close>

theorem totals_coerced_to_zero:
  "safe_int (Tag ''101'') = Inr 101
   \<and> safe_int (Str ''101'') = Inr 0
   \<and> map_of (parse_stats_table pf home_basic_table ''basic'') ''pts'' = Some (SInt 0)
   \<and> map_of (parse_stats_table pf home_basic_table ''basic'') ''fg_pct'' = Some (SFloat 0)"
  by code_simp

text \<open>
  C7, at the input of the specification: the player rows of \<open>home_basic_table\<close> have 10, 25
  and 8 points, and the \<open>pts_max\<close> computed is 0.
\<close>

theorem pts_max_is_zero:
  "map (\<lambda>cells. cells ! 19) (butlast (tl home_basic_table)) = [''10'', ''25'', ''8'']
   \<and> map_of (parse_stats_table pf home_basic_table ''basic'') ''pts_max'' = Some (SInt 0)"
  by code_simp

subsection \<open>The fetcher\<close>

lemma attempts_made_simps [simp]:
  "attempts_made [] = 0"
  "attempts_made (Goto u # evs) = Suc (attempts_made evs)"
  "attempts_made (SettleSleep d # evs) = attempts_made evs"
  "attempts_made (BackoffSleep d # evs) = attempts_made evs"
  "attempts_made (Warned u # evs) = attempts_made evs"
  "attempts_made (Errored u e # evs) = attempts_made evs"
  "attempts_made (evs @ evs') = attempts_made evs + attempts_made evs'"
  by (simp_all add: attempts_made_def)

lemma backoffs_simps [simp]:
  "backoffs [] = []"
  "backoffs (Goto u # evs) = backoffs evs"
  "backoffs (SettleSleep d # evs) = backoffs evs"
  "backoffs (BackoffSleep d # evs) = d # backoffs evs"
  "backoffs (Warned u # evs) = backoffs evs"
  "backoffs (Errored u e # evs) = backoffs evs"
  "backoffs (evs @ evs') = backoffs evs @ backoffs evs'"
  by (simp_all add: backoffs_def)

lemma retry_loop_loaded:
  "page attempt = Loaded html \<Longrightarrow>
     retry_loop st page url n (attempt # rest)
       = ([Goto url, SettleSleep (REQUEST_DELAY st)], Some html)"
  by simp

lemma retry_loop_last:
  assumes "\<not> is_loaded (page attempt)" and "attempt = n - 1"
  shows "\<exists>pre. retry_loop st page url n (attempt # rest) = (pre, None)
           \<and> attempts_made pre = 1 \<and> backoffs pre = []"
  using assms by (cases "page attempt") (auto simp: is_loaded_def on_failure_def)

lemma retry_loop_again:
  assumes "\<not> is_loaded (page attempt)" and "attempt \<noteq> n - 1"
  shows "\<exists>pre. retry_loop st page url n (attempt # rest)
             = (pre @ fst (retry_loop st page url n rest), snd (retry_loop st page url n rest))
           \<and> attempts_made pre = 1
           \<and> backoffs pre = [REQUEST_DELAY st * real_of_int (attempt + 1)]"
  using assms
  by (cases "page attempt")
     (auto simp: is_loaded_def on_failure_def split: prod.splits)

lemma retry_loop_from:
  assumes "a \<le> N" and "n = int N"
  shows "\<exists>k. attempts_made (fst (retry_loop st page url n (map int [a..<N]))) = k
      \<and> backoffs (fst (retry_loop st page url n (map int [a..<N])))
           = map (\<lambda>j. REQUEST_DELAY st * real j) [Suc a..<a + k]
      \<and> a + k \<le> N
      \<and> (\<forall>j. a \<le> j \<and> Suc j < a + k \<longrightarrow> \<not> is_loaded (page (int j)))
      \<and> (case snd (retry_loop st page url n (map int [a..<N])) of
            None \<Rightarrow> a + k = N \<and> (\<forall>j. a \<le> j \<and> j < N \<longrightarrow> \<not> is_loaded (page (int j)))
          | Some html \<Rightarrow> 0 < k \<and> page (int (a + k - 1)) = Loaded html)"
  using assms
proof (induction "N - a" arbitrary: a)
  case 0
  then have "a = N" by simp
  then show ?case by auto
next
  case (Suc d)
  then have lt: "a < N" and d: "d = N - Suc a" and le: "Suc a \<le> N" by simp_all
  have upt: "map int [a..<N] = int a # map int [Suc a..<N]"
    using lt by (simp add: upt_conv_Cons)
  let ?rest = "retry_loop st page url n (map int [Suc a..<N])"
  from Suc.hyps(1)[OF d le Suc.prems(2)] obtain k where
    k: "attempts_made (fst ?rest) = k"
    and bo: "backoffs (fst ?rest) = map (\<lambda>j. REQUEST_DELAY st * real j) [Suc (Suc a)..<Suc a + k]"
    and kle: "Suc a + k \<le> N"
    and nl: "\<forall>j. Suc a \<le> j \<and> Suc j < Suc a + k \<longrightarrow> \<not> is_loaded (page (int j))"
    and res: "(case snd ?rest of
            None \<Rightarrow> Suc a + k = N \<and> (\<forall>j. Suc a \<le> j \<and> j < N \<longrightarrow> \<not> is_loaded (page (int j)))
          | Some html \<Rightarrow> 0 < k \<and> page (int (Suc a + k - 1)) = Loaded html)"
    by blast
  show ?case
  proof (cases "is_loaded (page (int a))")
    case True
    then obtain html where h: "page (int a) = Loaded html"
      by (cases "page (int a)") (auto simp: is_loaded_def)
    have "retry_loop st page url n (map int [a..<N])
            = ([Goto url, SettleSleep (REQUEST_DELAY st)], Some html)"
      unfolding upt using h by simp
    then show ?thesis using h lt
      by (intro exI[of _ 1]) auto
  next
    case False
    show ?thesis
    proof (cases "int a = n - 1")
      case True
      then have last: "Suc a = N" using Suc.prems(2) lt by simp
      from False True
        retry_loop_last[where page = page and attempt = "int a" and n = n and st = st
          and url = url and rest = "map int [Suc a..<N]"]
      obtain pre where
        p: "retry_loop st page url n (map int [a..<N]) = (pre, None)"
           "attempts_made pre = 1" "backoffs pre = []"
        unfolding upt by blast
      have "\<And>j. a \<le> j \<and> j < N \<Longrightarrow> j = a" using last by simp
      with False have "\<forall>j. a \<le> j \<and> j < N \<longrightarrow> \<not> is_loaded (page (int j))" by blast
      then show ?thesis using p last
        by (intro exI[of _ 1]) auto
    next
      case nlast: False
      from False nlast
        retry_loop_again[where page = page and attempt = "int a" and n = n and st = st
          and url = url and rest = "map int [Suc a..<N]"]
      obtain pre where
        p: "retry_loop st page url n (map int [a..<N]) = (pre @ fst ?rest, snd ?rest)"
           "attempts_made pre = 1"
           "backoffs pre = [REQUEST_DELAY st * real_of_int (int a + 1)]"
        unfolding upt by blast
      have ne: "Suc a \<noteq> N" using nlast Suc.prems(2) by auto
      have kpos: "0 < k"
      proof (cases "snd ?rest")
        case None
        with res have "Suc a + k = N" by simp
        with ne show ?thesis by (cases k) auto
      next
        case (Some html)
        with res show ?thesis by simp
      qed
      have b: "backoffs (pre @ fst ?rest)
                 = map (\<lambda>j. REQUEST_DELAY st * real j) [Suc a..<a + Suc k]"
      proof -
        have "[Suc a..<a + Suc k] = Suc a # [Suc (Suc a)..<Suc a + k]"
          using kpos by (simp add: upt_conv_Cons)
        then show ?thesis using p(3) bo by (simp add: algebra_simps)
      qed
      have n1: "\<forall>j. a \<le> j \<and> Suc j < a + Suc k \<longrightarrow> \<not> is_loaded (page (int j))"
      proof (intro allI impI)
        fix j assume j: "a \<le> j \<and> Suc j < a + Suc k"
        show "\<not> is_loaded (page (int j))"
        proof (cases "j = a")
          case True
          with False show ?thesis by simp
        next
          case False
          with j have "Suc a \<le> j \<and> Suc j < Suc a + k" by simp
          with nl show ?thesis by blast
        qed
      qed
      have r: "(case snd ?rest of
            None \<Rightarrow> a + Suc k = N \<and> (\<forall>j. a \<le> j \<and> j < N \<longrightarrow> \<not> is_loaded (page (int j)))
          | Some html \<Rightarrow> 0 < Suc k \<and> page (int (a + Suc k - 1)) = Loaded html)"
      proof (cases "snd ?rest")
        case None
        with res have e: "Suc a + k = N"
          and a: "\<forall>j. Suc a \<le> j \<and> j < N \<longrightarrow> \<not> is_loaded (page (int j))" by simp_all
        have "\<forall>j. a \<le> j \<and> j < N \<longrightarrow> \<not> is_loaded (page (int j))"
        proof (intro allI impI)
          fix j assume j: "a \<le> j \<and> j < N"
          show "\<not> is_loaded (page (int j))"
          proof (cases "j = a")
            case True
            with False show ?thesis by simp
          next
            case False
            with j have "Suc a \<le> j \<and> j < N" by simp
            with a show ?thesis by blast
          qed
        qed
        with None e show ?thesis by simp
      next
        case (Some html)
        with res show ?thesis by simp
      qed
      show ?thesis
        using p(1,2) k b kle n1 r
        by (intro exI[of _ "Suc k"]) auto
    qed
  qed
qed

text \<open>
  C8, as the code has it. With \<open>n\<close> the retry count in effect (the argument, or the
  configured default when the argument is \<open>None\<close> or 0), the fetcher makes \<open>k\<close> attempts,
  at most \<open>n\<close>; it sleeps \<open>REQUEST_DELAY * j\<close> after the \<open>j\<close>-th attempt when another one
  follows; every attempt but the last made has failed, whatever it raised; and it returns
  \<open>None\<close> exactly when all \<open>n\<close> attempts failed, otherwise the markup of the first attempt
  that loaded. The configured default is 3.
\<close>

theorem fetch_retries:
  "\<exists>k. attempts_made (fst (get_html_with_retry st page url mr)) = k
      \<and> int k \<le> max 0 (effective_retries st mr)
      \<and> backoffs (fst (get_html_with_retry st page url mr))
           = map (\<lambda>j. REQUEST_DELAY st * real j) [1..<k]
      \<and> (\<forall>j. Suc j < k \<longrightarrow> \<not> is_loaded (page (int j)))
      \<and> (case snd (get_html_with_retry st page url mr) of
            None \<Rightarrow> int k = max 0 (effective_retries st mr)
                     \<and> (\<forall>j. j < k \<longrightarrow> \<not> is_loaded (page (int j)))
          | Some html \<Rightarrow> 0 < k \<and> page (int (k - 1)) = Loaded html)
      \<and> effective_retries default_settings None = 3"
proof -
  let ?n = "effective_retries st mr"
  have g: "get_html_with_retry st page url mr = retry_loop st page url ?n (py_range ?n)"
    by (simp add: get_html_with_retry_def effective_retries_def Let_def)
  have dflt: "effective_retries default_settings None = 3"
    by (simp add: effective_retries_def default_settings_def)
  show ?thesis
  proof (cases "0 \<le> ?n")
    case True
    then have n: "?n = int (nat ?n)" by simp
    from retry_loop_from[of 0 "nat ?n" ?n st page url, OF _ n] obtain k where
      k: "attempts_made (fst (retry_loop st page url ?n (map int [0..<nat ?n]))) = k"
        "backoffs (fst (retry_loop st page url ?n (map int [0..<nat ?n])))
           = map (\<lambda>j. REQUEST_DELAY st * real j) [Suc 0..<0 + k]"
        "0 + k \<le> nat ?n"
        "\<forall>j. 0 \<le> j \<and> Suc j < 0 + k \<longrightarrow> \<not> is_loaded (page (int j))"
        "(case snd (retry_loop st page url ?n (map int [0..<nat ?n])) of
            None \<Rightarrow> 0 + k = nat ?n \<and> (\<forall>j. 0 \<le> j \<and> j < nat ?n \<longrightarrow> \<not> is_loaded (page (int j)))
          | Some html \<Rightarrow> 0 < k \<and> page (int (0 + k - 1)) = Loaded html)"
      by blast
    show ?thesis
      using k True dflt unfolding g py_range_def
      by (intro exI[of _ k]) (auto split: option.splits)
  next
    case False
    then have "py_range ?n = []" by (simp add: py_range_def)
    then show ?thesis using False dflt unfolding g
      by (intro exI[of _ 0]) simp
  qed
qed

theorem fetch_retries_witness:
  "get_html_with_retry default_settings flaky_page ''https://x/boxscores/202306150LAL.html'' (Some 0)
     = ([Goto ''https://x/boxscores/202306150LAL.html'',
         Warned ''https://x/boxscores/202306150LAL.html'',
         BackoffSleep 1,
         Goto ''https://x/boxscores/202306150LAL.html'',
         SettleSleep 1,
         Errored ''https://x/boxscores/202306150LAL.html'' (OtherError ''net::ERR_CONNECTION_RESET''),
         BackoffSleep 2,
         Goto ''https://x/boxscores/202306150LAL.html'',
         SettleSleep 1],
        Some ''<div id=content></div>'')
   \<and> (\<exists>k. attempts_made (fst (get_html_with_retry default_settings flaky_page
              ''https://x/boxscores/202306150LAL.html'' (Some 0))) = k
        \<and> k = 3
        \<and> backoffs (fst (get_html_with_retry default_settings flaky_page
              ''https://x/boxscores/202306150LAL.html'' (Some 0))) = [1, 2])"
proof -
  have e: "get_html_with_retry default_settings flaky_page ''https://x/boxscores/202306150LAL.html'' (Some 0)
     = ([Goto ''https://x/boxscores/202306150LAL.html'',
         Warned ''https://x/boxscores/202306150LAL.html'',
         BackoffSleep 1,
         Goto ''https://x/boxscores/202306150LAL.html'',
         SettleSleep 1,
         Errored ''https://x/boxscores/202306150LAL.html'' (OtherError ''net::ERR_CONNECTION_RESET''),
         BackoffSleep 2,
         Goto ''https://x/boxscores/202306150LAL.html'',
         SettleSleep 1],
        Some ''<div id=content></div>'')"
    by code_simp
  from fetch_retries[of default_settings flaky_page "''https://x/boxscores/202306150LAL.html''" "Some 0"]
  show ?thesis unfolding e by simp
qed

text \<open>
  C8 as the specification states it, refuted: two fetches of different addresses whose
  attempts all fail, one by timeouts and one by another error, return the same value
  \<open>None\<close>, which carries neither the address nor the class of the last error.
\<close>

theorem fetch_failure_is_none:
  "snd (get_html_with_retry default_settings (\<lambda>i. GotoRaises PlaywrightTimeout)
          ''https://x/boxscores/202306150LAL.html'' None) = None
   \<and> snd (get_html_with_retry default_settings (\<lambda>i. ContentRaises (OtherError ''net::ERR_FAILED''))
          ''https://x/boxscores/202310240BOS.html'' None) = None"
  by code_simp

subsection \<open>Reading a raw document\<close>

lemma parse_html_read_total: "\<exists>text. parse_html_read bytes = Inr (Some text)"
  by (auto simp: parse_html_read_def decode_utf8_strict_def Let_def split: sum.splits)

lemma parse_html_read_fallback:
  "decode_utf8_strict bytes = Inl e \<Longrightarrow>
     parse_html_read bytes = Inr (Some (universal_newlines (decode_latin1 bytes)))"
  by (auto simp: parse_html_read_def decode_utf8_strict_def Let_def split: if_splits)

text \<open>
  C10, at the input where the code leaves it. The bytes of \<open>latin1_name\<close> are not UTF-8.
  \<open>parse_html\<close> of parse_data_copilot.py falls back to ISO-8859-1 and reads all four
  characters; \<open>DataProcessor.parse_html_file\<close> has no fallback, reads with
  \<open>errors='ignore'\<close>, and returns three: the last byte is dropped without a word.
\<close>

theorem undecodable_byte_dropped:
  "decode_utf8_strict latin1_name = Inl UnicodeDecodeError
   \<and> parse_html_read latin1_name = Inr (Some [74, 111, 115, 233])
   \<and> parse_html_file_read latin1_name = [74, 111, 115]"
  by code_simp

subsection \<open>Constructors\<close>

lemma fold_err_fails:
  assumes "x \<in> set xs" and "\<And>s. \<exists>e. f s x = Inl e"
  shows "\<exists>e. fold_err f xs s = Inl e"
  using assms(1)
proof (induction xs arbitrary: s)
  case Nil
  then show ?case by simp
next
  case (Cons y ys)
  show ?case
  proof (cases "f s y")
    case (Inl e)
    then show ?thesis by simp
  next
    case (Inr s')
    show ?thesis
    proof (cases "x = y")
      case True
      with assms(2)[of s] Inr show ?thesis by auto
    next
      case False
      with Cons.prems have "x \<in> set ys" by simp
      from Cons.IH[OF this, of s'] Inr show ?thesis by simp
    qed
  qed
qed

lemma fold_err_each:
  assumes "fold_err f xs s = Inr s'" and "x \<in> set xs"
  shows "\<exists>s1 s2. f s1 x = Inr s2"
  using assms
proof (induction xs arbitrary: s)
  case Nil
  then show ?case by simp
next
  case (Cons y ys)
  then obtain s1 where s1: "f s y = Inr s1" and rest: "fold_err f ys s1 = Inr s'"
    by (cases "f s y") auto
  show ?case
  proof (cases "x = y")
    case True
    with s1 show ?thesis by blast
  next
    case False
    with Cons.prems(2) have "x \<in> set ys" by simp
    from Cons.IH[OF rest this] show ?thesis .
  qed
qed

text \<open>
  A keyword that is no attribute of the class makes the constructor raise. The names
  \<open>mp\<close> and \<open>mp_max\<close> are no attributes of \<open>TeamGameStats\<close>, and \<open>team_stats\<close> and
  \<open>player_stats\<close> are none of \<open>Game\<close>.
\<close>

lemma construct_no_attr:
  assumes "k \<in> keys kwargs" and "\<not> has_attr m k"
  shows "\<exists>e. construct m kwargs = Inl e"
proof -
  from assms(1) obtain v where kv: "(k, v) \<in> set kwargs" by (auto simp: keys_def)
  show ?thesis
    unfolding construct_def
    by (rule fold_err_fails[OF kv]) (simp add: assms(2))
qed

lemma game_construct_no_attr:
  assumes "k \<in> keys game_data" and "\<not> has_attr Game k"
  shows "\<exists>e. game_construct game_data = Inl e"
proof -
  from assms(1) obtain v where kv: "(k, v) \<in> set game_data" by (auto simp: keys_def)
  show ?thesis
    unfolding game_construct_def
    by (rule fold_err_fails[OF kv]) (simp add: game_set_def assms(2))
qed

lemma team_stats_no_attr:
  "\<not> has_attr TeamGameStats ''mp''" "\<not> has_attr TeamGameStats ''mp_max''"
  by (simp_all add: has_attr_def columns_def relationships_def)

lemma game_no_attr:
  "\<not> has_attr Game ''team_stats''" "\<not> has_attr Game ''player_stats''"
  by (simp_all add: has_attr_def columns_def relationships_def)

lemma game_relationships:
  "is_relationship Game k \<longleftrightarrow> k = ''home_stats'' \<or> k = ''away_stats'' \<or> k = ''officials''"
  by (auto simp: is_relationship_def relationships_def)

lemma game_construct_entries:
  assumes "game_construct game_data = Inr game" and "(k, v) \<in> set game_data"
  shows "has_attr Game k \<and> (if is_relationship Game k then v = Rows [] else \<exists>x. v = Scalar x)"
proof -
  from fold_err_each[OF assms(1)[unfolded game_construct_def] assms(2)]
  obtain s1 s2 where "game_set s1 (k, v) = Inr s2" by blast
  then show ?thesis
    by (cases v) (auto simp: game_set_def split: if_splits)
qed

text \<open>
  So a record the constructor of \<open>Game\<close> accepts has no sub-records to write: the keys
  \<open>team_stats\<close> and \<open>player_stats\<close> are absent, and \<open>officials\<close> is absent or empty.
\<close>

lemma game_construct_children:
  assumes "game_construct game_data = Inr game"
  shows "pending_children game_data = Inr []"
proof -
  have none: "map_of game_data k = None" if "\<not> has_attr Game k" for k
  proof (cases "map_of game_data k")
    case None
    then show ?thesis .
  next
    case (Some v)
    then have "(k, v) \<in> set game_data" by (rule map_of_SomeD)
    from game_construct_entries[OF assms this] that show ?thesis by simp
  qed
  have t: "children game_data ''team_stats'' = Inr []"
    using none[OF game_no_attr(1)] by (simp add: children_def)
  have p: "children game_data ''player_stats'' = Inr []"
    using none[OF game_no_attr(2)] by (simp add: children_def)
  have o: "children game_data ''officials'' = Inr []"
  proof (cases "map_of game_data ''officials''")
    case None
    then show ?thesis by (simp add: children_def)
  next
    case (Some v)
    then have "(''officials'', v) \<in> set game_data" by (rule map_of_SomeD)
    from game_construct_entries[OF assms this] have "v = Rows []"
      by (simp add: game_relationships)
    with Some show ?thesis by (simp add: children_def)
  qed
  show ?thesis by (simp add: pending_children_def t p o add_each_def)
qed

subsection \<open>Ingest\<close>

lemma commit_nothing: "commit eng db db = Inr db"
  by (simp add: commit_def)

lemma insert_all_Nil: "insert_all [] db = db"
  by (simp add: insert_all_def)

lemma save_existing:
  assumes "game_id_of game_data = Inr gid"
    and "find (\<lambda>r. map_of r ''game_id'' = Some gid) (games db) = Some existing_game"
  shows "save_game_to_database eng db game_data = (db, LogSkipped)"
  using assms by (simp add: save_game_to_database_def save_body_def)

lemma save_new:
  assumes "game_id_of game_data = Inr gid"
    and "find (\<lambda>r. map_of r ''game_id'' = Some gid) (games db) = None"
  shows "save_game_to_database eng db game_data =
     (case game_construct game_data of
        Inl e \<Rightarrow> (db, LogError e)
      | Inr game \<Rightarrow>
          (case commit eng db (insert_row db (Game, game)) of
             Inl e \<Rightarrow> (db, LogError e)
           | Inr db1 \<Rightarrow> (db1, LogSaved)))"
proof (cases "game_construct game_data")
  case (Inl e)
  with assms show ?thesis by (simp add: save_game_to_database_def save_body_def)
next
  case (Inr game)
  from game_construct_children[OF Inr] have pc: "pending_children game_data = Inr []" .
  show ?thesis
    using assms Inr pc
    by (simp add: save_game_to_database_def save_body_def insert_all_Nil commit_nothing
             split: sum.splits)
qed

lemma save_unchanged_or_saved:
  "fst (save_game_to_database eng db game_data) = db
   \<or> snd (save_game_to_database eng db game_data) = LogSaved"
proof (cases "game_id_of game_data")
  case (Inl e)
  then show ?thesis by (simp add: save_game_to_database_def save_body_def)
next
  case (Inr gid)
  show ?thesis
  proof (cases "find (\<lambda>r. map_of r ''game_id'' = Some gid) (games db)")
    case None
    from save_new[OF Inr None] show ?thesis by (auto split: sum.splits)
  next
    case (Some g)
    from save_existing[OF Inr Some] show ?thesis by simp
  qed
qed

lemma insert_row_changes: "insert_row db (m, inst) \<noteq> db"
proof
  assume "insert_row db (m, inst) = db"
  then have "table_of m (insert_row db (m, inst)) = table_of m db" by simp
  then show False
    by (cases m) (simp_all add: insert_row_def table_of_def set_table_def)
qed

text \<open>
  A record with an id that is not stored yet leaves the database in one of two states:
  nothing is written and an error is logged, or the game row is written and \<open>Saved\<close> is
  logged. A record that carries lists of sub-records is refused when \<open>Game\<close> is
  constructed, before the first write (lemma \<open>game_construct_children\<close>), so the second
  commit has nothing to write.
\<close>

lemma save_new_outcomes:
  assumes "game_id_of game_data = Inr gid"
    and "find (\<lambda>r. map_of r ''game_id'' = Some gid) (games db) = None"
  shows "(\<exists>e. save_game_to_database eng db game_data = (db, LogError e))
       \<or> (\<exists>game pending.
             game_construct game_data = Inr game
           \<and> pending_children game_data = Inr pending
           \<and> save_game_to_database eng db game_data
               = (insert_all pending (insert_row db (Game, game)), LogSaved))"
proof (cases "game_construct game_data")
  case (Inl e)
  with save_new[OF assms, of eng] show ?thesis by simp
next
  case (Inr game)
  from game_construct_children[OF Inr] have pc: "pending_children game_data = Inr []" .
  show ?thesis
  proof (cases "commit eng db (insert_row db (Game, game))")
    case (Inl e)
    with save_new[OF assms, of eng] Inr show ?thesis by simp
  next
    case db1: (Inr db1)
    then have "db1 = insert_row db (Game, game)"
      by (auto simp: commit_def insert_row_changes split: if_splits option.splits)
    with save_new[OF assms, of eng] Inr db1 pc show ?thesis
      by (simp add: insert_all_Nil)
  qed
qed

lemma insert_game_other_tables:
  "team_game_stats (insert_row db (Game, g)) = team_game_stats db"
  "player_game_stats (insert_row db (Game, g)) = player_game_stats db"
  "game_officials (insert_row db (Game, g)) = game_officials db"
  by (simp_all add: insert_row_def set_table_def)

lemma save_result_store:
  "fst (save_game_to_database eng db game_data) = db
   \<or> (\<exists>game. fst (save_game_to_database eng db game_data) = insert_row db (Game, game))"
proof (cases "game_id_of game_data")
  case (Inl e)
  then show ?thesis by (simp add: save_game_to_database_def save_body_def)
next
  case (Inr gid)
  show ?thesis
  proof (cases "find (\<lambda>r. map_of r ''game_id'' = Some gid) (games db)")
    case (Some g)
    from save_existing[OF Inr Some] show ?thesis by simp
  next
    case None
    show ?thesis
    proof (cases "game_construct game_data")
      case (Inl e)
      with save_new[OF Inr None, of eng] show ?thesis by simp
    next
      case game: (Inr game)
      show ?thesis
      proof (cases "commit eng db (insert_row db (Game, game))")
        case (Inl e)
        with save_new[OF Inr None, of eng] game show ?thesis by simp
      next
        case db1: (Inr db1)
        then have "db1 = insert_row db (Game, game)"
          by (auto simp: commit_def insert_row_changes split: if_splits option.splits)
        with save_new[OF Inr None, of eng] game db1 show ?thesis by auto
      qed
    qed
  qed
qed

text \<open>
  C1. The ingest never writes a sub-record. Whatever the record, the database and the
  verdicts of the database, the tables of the team statistics, of the player statistics
  and of the officials are after \<open>save_game_to_database\<close> what they were before: a
  record that carries sub-records is refused when \<open>Game(**game_data)\<close> is evaluated, before
  the first write, and the loops that build the sub-records run over empty lists only.
  The record assembled from \<open>box_doc\<close> has a sub-record for the home team; its ingest into
  the empty database writes nothing and logs the \<open>TypeError\<close>.
\<close>

theorem ingest_writes_no_subrecords:
  "team_game_stats (fst (save_game_to_database eng db game_data)) = team_game_stats db
   \<and> player_game_stats (fst (save_game_to_database eng db game_data)) = player_game_stats db
   \<and> game_officials (fst (save_game_to_database eng db game_data)) = game_officials db
   \<and> map_option (\<lambda>r. (map_sum id length (children r ''team_stats''),
                       save_game_to_database accept_all empty_store r))
        (assemble decimal_float box_doc ''202306150LAL'')
       = Some (Inr 1, empty_store, LogError TypeError)"
proof -
  from save_result_store[of eng db game_data]
  have g: "team_game_stats (fst (save_game_to_database eng db game_data)) = team_game_stats db
   \<and> player_game_stats (fst (save_game_to_database eng db game_data)) = player_game_stats db
   \<and> game_officials (fst (save_game_to_database eng db game_data)) = game_officials db"
    by (auto simp: insert_game_other_tables)
  have c: "map_option (\<lambda>r. (map_sum id length (children r ''team_stats''),
                       save_game_to_database accept_all empty_store r))
        (assemble decimal_float box_doc ''202306150LAL'')
       = Some (Inr 1, empty_store, LogError TypeError)"
    by code_simp
  from g c show ?thesis by simp
qed

text \<open>
  Idempotence. A game whose id is stored is skipped without a change; and running the
  ingest a second time on the same record leaves the database as the first run left it.
\<close>

lemma game_set_other:
  "game_set inst (k', v) = Inr inst' \<Longrightarrow> k' \<noteq> k \<Longrightarrow> map_of inst' k = map_of inst k"
  by (cases v) (auto simp: game_set_def update_conv' split: if_splits)

lemma game_construct_keeps:
  assumes "fold_err game_set kvs inst = Inr game" and "k \<notin> fst ` set kvs"
  shows "map_of game k = map_of inst k"
  using assms
proof (induction kvs arbitrary: inst)
  case Nil
  then show ?case by simp
next
  case (Cons kv kvs)
  obtain k' v where kv: "kv = (k', v)" by (cases kv)
  from Cons.prems(1) obtain inst' where s: "game_set inst (k', v) = Inr inst'"
    and rest: "fold_err game_set kvs inst' = Inr game"
    unfolding kv by (cases "game_set inst (k', v)") auto
  from Cons.prems(2) kv have ne: "k' \<noteq> k" and nin: "k \<notin> fst ` set kvs" by auto
  from Cons.IH[OF rest nin] game_set_other[OF s ne] show ?case by simp
qed

lemma game_construct_value:
  assumes "fold_err game_set kvs inst = Inr game" and "distinct (map fst kvs)"
    and "(k, Scalar x) \<in> set kvs"
  shows "map_of game k = Some x"
  using assms
proof (induction kvs arbitrary: inst)
  case Nil
  then show ?case by simp
next
  case (Cons kv kvs)
  obtain k' v where kv: "kv = (k', v)" by (cases kv)
  from Cons.prems(1) obtain inst' where s: "game_set inst (k', v) = Inr inst'"
    and rest: "fold_err game_set kvs inst' = Inr game"
    unfolding kv by (cases "game_set inst (k', v)") auto
  show ?case
  proof (cases "(k, Scalar x) = kv")
    case True
    with kv have e: "k' = k" "v = Scalar x" by simp_all
    from Cons.prems(2) kv e have nin: "k \<notin> fst ` set kvs" by simp
    from s e have "map_of inst' k = Some x"
      by (auto simp: game_set_def update_conv' split: if_splits)
    with game_construct_keeps[OF rest nin] show ?thesis by simp
  next
    case False
    with Cons.prems(3) have "(k, Scalar x) \<in> set kvs" by simp
    moreover from Cons.prems(2) have "distinct (map fst kvs)" by simp
    ultimately show ?thesis using Cons.IH[OF rest] by blast
  qed
qed

lemma new_game_row_id:
  assumes "map_of game ''game_id'' = Some gid"
  shows "map_of (new_row Game game rows) ''game_id'' = Some gid"
proof -
  define full where
    "full = map (\<lambda>(c, dflt). (c, case map_of game c of
                                     Some v \<Rightarrow> if v = SNone then dflt else v
                                   | None \<Rightarrow> dflt)) (columns Game)"
  define F where
    "F = clear_fks Game (full @ filter (\<lambda>(k, v). is_relationship Game k) game)"
  have cf: "clear_fks Game inst = filter (\<lambda>(k, v). \<not> is_relationship Game k) inst" for inst
    by (simp add: clear_fks_def relationships_def)
  have nr: "\<not> is_relationship Game ''game_id''" by (simp add: game_relationships)
  have h: "map_of (filter (\<lambda>(k, v). \<not> is_relationship Game k) (xs @ ys)) ''game_id'' = Some gid"
    if "map_of xs ''game_id'' = Some gid" for xs ys :: row
    using that nr by (induction xs) (auto split: if_splits)
  have "map_of full ''game_id'' = Some gid"
    using assms by (simp add: full_def columns_def)
  then have F: "map_of F ''game_id'' = Some gid"
    unfolding F_def cf by (rule h)
  have "new_row Game game rows =
      (if map_of F ''id'' = Some SNone then AList.update ''id'' (SInt (next_id rows)) F else F)"
    by (simp only: new_row_def Let_def F_def full_def)
  with F show ?thesis by (simp add: update_conv')
qed

lemma find_append_new:
  "find P xs = None \<Longrightarrow> P y \<Longrightarrow> find P (xs @ [y]) = Some y"
  by (induction xs) (auto split: if_splits)

lemma ingest_twice:
  assumes "distinct (map fst game_data)"
  shows "fst (save_game_to_database eng (fst (save_game_to_database eng db game_data)) game_data)
           = fst (save_game_to_database eng db game_data)"
proof (cases "game_id_of game_data")
  case (Inl e)
  then show ?thesis by (simp add: save_game_to_database_def save_body_def)
next
  case (Inr gid)
  then have g: "(''game_id'', Scalar gid) \<in> set game_data"
    by (auto simp: game_id_of_def dest: map_of_SomeD split: option.splits pyval.splits)
  show ?thesis
  proof (cases "find (\<lambda>r. map_of r ''game_id'' = Some gid) (games db)")
    case (Some existing)
    from save_existing[OF Inr Some] show ?thesis by simp
  next
    case None
    note new = save_new[OF Inr None, of eng]
    show ?thesis
    proof (cases "game_construct game_data")
      case (Inl e)
      with new show ?thesis by simp
    next
      case game: (Inr game)
      show ?thesis
      proof (cases "commit eng db (insert_row db (Game, game))")
        case (Inl e)
        with new game show ?thesis by simp
      next
        case db1: (Inr db1)
        then have d: "db1 = insert_row db (Game, game)"
          by (auto simp: commit_def insert_row_changes split: if_splits option.splits)
        from game_construct_value[OF game[unfolded game_construct_def] assms g]
        have "map_of game ''game_id'' = Some gid" .
        from new_game_row_id[OF this]
        have "map_of (new_row Game game (games db)) ''game_id'' = Some gid" .
        with None have "find (\<lambda>r. map_of r ''game_id'' = Some gid) (games db1)
            = Some (new_row Game game (games db))"
          unfolding d by (simp add: insert_row_def table_of_def set_table_def find_append_new)
        from save_existing[OF Inr this, of eng] new game db1 show ?thesis by simp
      qed
    qed
  qed
qed

text \<open>
  C2, at the input where the code leaves it. The record \<open>assemble\<close> makes of a document
  always has the keys \<open>team_stats\<close>, \<open>player_stats\<close> and \<open>officials\<close>, and \<open>Game\<close> has no
  attribute \<open>team_stats\<close>: \<open>Game(**game_data)\<close> raises \<open>TypeError\<close>, which is logged. After one
  run and after two runs no game is stored.
\<close>

theorem parsed_game_not_persisted:
  "assemble decimal_float plain_doc ''202306150LAL'' = Some parsed_game
   \<and> save_game_to_database accept_all empty_store parsed_game = (empty_store, LogError TypeError)
   \<and> games (fst (save_game_to_database accept_all
               (fst (save_game_to_database accept_all empty_store parsed_game)) parsed_game)) = []"
  by code_simp

subsection \<open>The keys of the team statistics\<close>

lemma keys_update: "keys (AList.update k v d) = insert k (keys d)"
  by (simp add: keys_def dom_update)

lemma keys_Nil: "keys [] = {}"
  by (simp add: keys_def)

lemma keys_Cons: "keys ((k, v) # d) = insert k (keys d)"
  by (simp add: keys_def)

lemma keys_append: "keys (a @ b) = keys a \<union> keys b"
  by (auto simp: keys_def)

lemma dict_merge_keys: "keys (dict_merge a b) = keys a \<union> keys b"
  unfolding dict_merge_def
proof (induction b arbitrary: a)
  case Nil
  then show ?case by (simp add: keys_Nil)
next
  case (Cons kv b)
  obtain k v where "kv = (k, v)" by (cases kv)
  with Cons[of "AList.update k v a"] show ?case
    by (auto simp: keys_update keys_Cons)
qed

lemma totals_step_result:
  "snd (totals_step pf st mp stats ic) = None
   \<and> keys stats \<subseteq> keys (fst (totals_step pf st mp stats ic))
   \<and> (\<forall>name. map_of mp (fst ic) = Some name \<longrightarrow> name \<in> keys (fst (totals_step pf st mp stats ic)))"
  by (cases ic)
     (auto simp: totals_step_def Let_def safe_int_Str safe_float_Str keys_update
           split: option.splits)

lemma max_step_result:
  assumes "zero_valued stats"
  shows "snd (max_step pf mp stats jc) = None
   \<and> keys stats \<subseteq> keys (fst (max_step pf mp stats jc))
   \<and> (\<forall>name. map_of mp (fst jc) = Some name
         \<longrightarrow> name @ ''_max'' \<in> keys (fst (max_step pf mp stats jc)))"
proof (cases jc)
  case (Pair j cell)
  show ?thesis
  proof (cases "map_of mp j")
    case None
    with Pair show ?thesis by (simp add: max_step_def)
  next
    case (Some name)
    have cur_i: "(case map_of stats (name @ ''_max'') of None \<Rightarrow> SInt 0 | Some v \<Rightarrow> v) = SInt 0
        \<or> (case map_of stats (name @ ''_max'') of None \<Rightarrow> SInt 0 | Some v \<Rightarrow> v) = SFloat 0"
      using zero_valued_lookup[OF assms, of "name @ ''_max''"] by (auto split: option.splits)
    have cur_f: "(case map_of stats (name @ ''_max'') of None \<Rightarrow> SFloat 0 | Some v \<Rightarrow> v) = SInt 0
        \<or> (case map_of stats (name @ ''_max'') of None \<Rightarrow> SFloat 0 | Some v \<Rightarrow> v) = SFloat 0"
      using zero_valued_lookup[OF assms, of "name @ ''_max''"] by (auto split: option.splits)
    from Pair Some cur_i cur_f show ?thesis
      by (auto simp: max_step_def Let_def safe_int_Str safe_float_Str py_max_zero keys_update)
  qed
qed

lemma fold_exc_never_raises:
  assumes "\<And>s x. P s \<Longrightarrow> snd (f s x) = None \<and> P (fst (f s x))" and "P s"
  shows "snd (fold_exc f xs s) = None \<and> P (fst (fold_exc f xs s))"
  using assms(2)
proof (induction xs arbitrary: s)
  case Nil
  then show ?case by simp
next
  case (Cons x xs)
  obtain s' r where fx: "f s x = (s', r)" by (cases "f s x")
  with assms(1)[OF Cons.prems, of x] have r: "r = None" and p: "P s'" by simp_all
  from Cons.IH[OF p] fx r show ?case by simp
qed

lemma fold_exc_Cons_ok:
  "snd (f s x) = None \<Longrightarrow> fold_exc f (x # xs) s = fold_exc f xs (fst (f s x))"
  by (cases "f s x") simp

lemma totals_fold:
  "snd (fold_exc (totals_step pf st mp) xs s) = None
   \<and> keys s \<subseteq> keys (fst (fold_exc (totals_step pf st mp) xs s))"
proof -
  define P where "P = (\<lambda>t::row. keys s \<subseteq> keys t)"
  have "snd (fold_exc (totals_step pf st mp) xs s) = None
      \<and> P (fst (fold_exc (totals_step pf st mp) xs s))"
  proof (rule fold_exc_never_raises[where P = P])
    show "P s" by (simp add: P_def)
    show "snd (totals_step pf st mp t x) = None \<and> P (fst (totals_step pf st mp t x))"
      if "P t" for t x
      using that totals_step_result[of pf st mp t x] unfolding P_def by blast
  qed
  then show ?thesis by (simp add: P_def)
qed

lemma max_row_fold:
  assumes "zero_valued s"
  shows "snd (fold_exc (max_step pf mp) xs s) = None
   \<and> zero_valued (fst (fold_exc (max_step pf mp) xs s))
   \<and> keys s \<subseteq> keys (fst (fold_exc (max_step pf mp) xs s))"
proof -
  define P where "P = (\<lambda>t::row. zero_valued t \<and> keys s \<subseteq> keys t)"
  have "snd (fold_exc (max_step pf mp) xs s) = None
      \<and> P (fst (fold_exc (max_step pf mp) xs s))"
  proof (rule fold_exc_never_raises[where P = P])
    show "P s" using assms by (simp add: P_def)
    show "snd (max_step pf mp t x) = None \<and> P (fst (max_step pf mp t x))"
      if "P t" for t x
      using that max_step_result[of t pf mp x] max_step_zero[of t pf mp x]
      unfolding P_def by blast
  qed
  then show ?thesis by (simp add: P_def)
qed

lemma max_row_result:
  assumes "zero_valued s"
  shows "snd (max_row pf mp s cells) = None
   \<and> zero_valued (fst (max_row pf mp s cells))
   \<and> keys s \<subseteq> keys (fst (max_row pf mp s cells))"
  unfolding max_row_def by (rule max_row_fold[OF assms])

lemma enumerate_tl:
  "2 \<le> length cells \<Longrightarrow> \<exists>c rest. List.enumerate 1 (tl cells) = (1, c) # rest"
  by (cases cells; cases "tl cells") auto

lemma max_row_first:
  assumes "zero_valued s" and "2 \<le> length cells"
  shows "''mp_max'' \<in> keys (fst (max_row pf basic_mapping s cells))"
proof -
  from enumerate_tl[OF assms(2)] obtain c rest where
    e: "List.enumerate 1 (tl cells) = (1, c) # rest" by blast
  let ?s1 = "fst (max_step pf basic_mapping s (1, c))"
  from max_step_result[OF assms(1), of pf basic_mapping "(1, c)"]
  have ok: "snd (max_step pf basic_mapping s (1, c)) = None" and k: "''mp_max'' \<in> keys ?s1"
    by (simp_all add: basic_mapping_def)
  have z: "zero_valued ?s1" by (rule max_step_zero[OF assms(1)])
  have "max_row pf basic_mapping s cells = fold_exc (max_step pf basic_mapping) rest ?s1"
    unfolding max_row_def e
    by (rule fold_exc_Cons_ok[where f = "max_step pf basic_mapping" and s = s and x = "(1, c)", OF ok])
  with max_row_fold[OF z, of pf basic_mapping rest] k show ?thesis by auto
qed

lemma max_rows_fold:
  assumes "zero_valued s"
  shows "snd (fold_exc (max_row pf mp) rows s) = None
   \<and> zero_valued (fst (fold_exc (max_row pf mp) rows s))
   \<and> keys s \<subseteq> keys (fst (fold_exc (max_row pf mp) rows s))"
proof -
  define P where "P = (\<lambda>t::row. zero_valued t \<and> keys s \<subseteq> keys t)"
  have "snd (fold_exc (max_row pf mp) rows s) = None
      \<and> P (fst (fold_exc (max_row pf mp) rows s))"
  proof (rule fold_exc_never_raises[where P = P])
    show "P s" using assms by (simp add: P_def)
    show "snd (max_row pf mp t x) = None \<and> P (fst (max_row pf mp t x))"
      if "P t" for t x
      using that max_row_result[of t pf mp x] unfolding P_def by blast
  qed
  then show ?thesis by (simp add: P_def)
qed

lemma max_rows_some:
  assumes "zero_valued s" and "\<exists>cells \<in> set rows. 2 \<le> length cells"
  shows "''mp_max'' \<in> keys (fst (fold_exc (max_row pf basic_mapping) rows s))"
  using assms
proof (induction rows arbitrary: s)
  case Nil
  then show ?case by simp
next
  case (Cons r rows)
  let ?s1 = "fst (max_row pf basic_mapping s r)"
  from max_row_result[OF Cons.prems(1), of pf basic_mapping r]
  have ok: "snd (max_row pf basic_mapping s r) = None" and z: "zero_valued ?s1" by simp_all
  have step: "fold_exc (max_row pf basic_mapping) (r # rows) s
                = fold_exc (max_row pf basic_mapping) rows ?s1"
    by (rule fold_exc_Cons_ok[where f = "max_row pf basic_mapping" and s = s and x = r, OF ok])
  show ?case
  proof (cases "2 \<le> length r")
    case True
    from max_row_first[OF Cons.prems(1) True, of pf] have "''mp_max'' \<in> keys ?s1" .
    with max_rows_fold[OF z, of pf basic_mapping rows] show ?thesis
      unfolding step by auto
  next
    case False
    with Cons.prems(2) have "\<exists>cells \<in> set rows. 2 \<le> length cells" by auto
    from Cons.IH[OF z this] show ?thesis unfolding step .
  qed
qed

lemma basic_table_keys:
  assumes "tbl \<noteq> []" and "2 \<le> length (last tbl)"
  shows "''mp'' \<in> keys (parse_stats_table pf tbl ''basic'')"
    and "(\<exists>cells \<in> set (butlast (tl tbl)). 2 \<le> length cells)
           \<Longrightarrow> ''mp_max'' \<in> keys (parse_stats_table pf tbl ''basic'')"
proof -
  from enumerate_tl[OF assms(2)] obtain c rest where
    e: "List.enumerate 1 (tl (last tbl)) = (1, c) # rest" by blast
  let ?f = "totals_step pf ''basic'' basic_mapping"
  let ?s1 = "fst (?f [] (1, c))"
  let ?totals = "fold_exc ?f (List.enumerate 1 (tl (last tbl))) []"
  from totals_step_result[of pf "''basic''" basic_mapping "[]" "(1, c)"]
  have ok: "snd (?f [] (1, c)) = None" and k: "''mp'' \<in> keys ?s1"
    by (simp_all add: basic_mapping_def)
  have t: "?totals = fold_exc ?f rest ?s1"
    unfolding e
    by (rule fold_exc_Cons_ok[where f = "totals_step pf ''basic'' basic_mapping" and s = "[]"
          and x = "(1, c)", OF ok])
  from totals_fold[of pf "''basic''" basic_mapping rest ?s1] k
  have tn: "snd ?totals = None" and tk: "''mp'' \<in> keys (fst ?totals)"
    unfolding t by auto
  have z0: "zero_valued []" by (simp add: zero_valued_def)
  have tz: "zero_valued (fst ?totals)"
    by (rule fold_exc_invariant[where P = zero_valued, OF _ z0]) (rule totals_step_zero)
  have body: "parse_stats_table pf tbl ''basic''
      = fst (fold_exc (max_row pf basic_mapping) (butlast (tl tbl)) (fst ?totals))"
    using assms(1) tn
    by (cases ?totals) (simp add: parse_stats_table_def stats_table_body_def Let_def)
  from max_rows_fold[OF tz, of pf basic_mapping "butlast (tl tbl)"] tk
  show "''mp'' \<in> keys (parse_stats_table pf tbl ''basic'')"
    unfolding body by auto
  show "''mp_max'' \<in> keys (parse_stats_table pf tbl ''basic'')"
    if "\<exists>cells \<in> set (butlast (tl tbl)). 2 \<le> length cells"
    unfolding body by (rule max_rows_some[OF tz that])
qed

lemma save_rejected:
  assumes "k \<in> keys game_data" and "\<not> has_attr Game k"
  shows "fst (save_game_to_database eng db game_data) = db"
proof -
  from game_construct_no_attr[OF assms] obtain e where "game_construct game_data = Inl e"
    by blast
  then show ?thesis
    by (auto simp: save_game_to_database_def save_body_def split: sum.splits option.splits)
qed

lemma assemble_team_stats:
  assumes "assemble pf sp game_id = Some game_data"
  shows "map_of game_data ''team_stats'' = Some (Rows (parse_team_stats pf sp game_id))"
    and "''team_stats'' \<in> keys game_data"
proof -
  from assms obtain info where i: "parse_basic_game_info sp game_id = Some info"
    by (auto simp: assemble_def split: option.splits)
  have keys_info: "keys info = {''game_id'', ''date'', ''season'', ''home_team'', ''away_team'',
      ''home_score'', ''away_score'', ''home_won''}"
    using i unfolding parse_basic_game_info_def basic_game_info_body_def
    by (auto simp: Let_def keys_def split: sum.splits option.splits if_splits prod.splits)
  from assms i have g: "game_data = AList.update ''officials'' (Rows (parse_officials sp game_id))
      (AList.update ''player_stats'' (Rows (parse_player_stats pf sp game_id))
        (AList.update ''team_stats'' (Rows (parse_team_stats pf sp game_id)) info))"
    by (auto simp: assemble_def Let_def split: if_splits)
  show "map_of game_data ''team_stats'' = Some (Rows (parse_team_stats pf sp game_id))"
    unfolding g by (simp add: update_conv')
  show "''team_stats'' \<in> keys game_data"
    unfolding g by (simp add: keys_update)
qed

text \<open>
  C3, as the code has it. For a side whose basic table has a totals row with a cell at
  offset 1, the basic mapping has the key \<open>mp\<close>, and the key \<open>mp_max\<close> when a row between the
  header and the totals has a cell at offset 1; \<open>TeamGameStats\<close> has no attribute of either
  name; the dictionary built for that side has the key \<open>mp\<close> and its constructor raises;
  and the ingest of the assembled record leaves the table of team statistics as it was.
\<close>

theorem team_stats_never_persisted:
  assumes "team = ''home'' \<or> team = ''away''"
    and "find_table sp (''box-'' @ team @ ''-game-basic'') = Some tbl"
    and "tbl \<noteq> []" and "2 \<le> length (last tbl)"
    and "assemble pf sp game_id = Some game_data"
  shows "''mp'' \<in> keys (parse_stats_table pf tbl ''basic'')
       \<and> ((\<exists>cells \<in> set (butlast (tl tbl)). 2 \<le> length cells)
            \<longrightarrow> ''mp_max'' \<in> keys (parse_stats_table pf tbl ''basic''))
       \<and> \<not> has_attr TeamGameStats ''mp'' \<and> \<not> has_attr TeamGameStats ''mp_max''
       \<and> (\<exists>ts \<in> set (parse_team_stats pf sp game_id).
              ''mp'' \<in> keys ts \<and> (\<exists>e. construct TeamGameStats ts = Inl e))
       \<and> map_of game_data ''team_stats'' = Some (Rows (parse_team_stats pf sp game_id))
       \<and> team_game_stats (fst (save_game_to_database eng db game_data)) = team_game_stats db"
proof -
  note k = basic_table_keys[OF assms(3,4), of pf]
  obtain ts where ts: "team_stat_for pf sp game_id team = [ts]" and mp: "''mp'' \<in> keys ts"
    using assms(2) k(1)
    by (auto simp: team_stat_for_def Let_def dict_merge_keys split: option.splits)
  from construct_no_attr[OF mp team_stats_no_attr(1)]
  have c: "\<exists>e. construct TeamGameStats ts = Inl e" .
  from ts assms(1) have "ts \<in> set (parse_team_stats pf sp game_id)"
    by (auto simp: parse_team_stats_def)
  with mp c have ex: "\<exists>ts \<in> set (parse_team_stats pf sp game_id).
      ''mp'' \<in> keys ts \<and> (\<exists>e. construct TeamGameStats ts = Inl e)" by blast
  from save_rejected[OF assemble_team_stats(2)[OF assms(5)] game_no_attr(1), of eng db]
  have "team_game_stats (fst (save_game_to_database eng db game_data)) = team_game_stats db"
    by simp
  with k ex assemble_team_stats(1)[OF assms(5)] team_stats_no_attr show ?thesis by blast
qed

theorem team_stats_never_persisted_witness:
  "find_table box_doc (''box-'' @ ''home'' @ ''-game-basic'') = Some home_basic_table
   \<and> 2 \<le> length (last home_basic_table)
   \<and> assemble decimal_float box_doc ''202306150LAL'' \<noteq> None
   \<and> ''mp'' \<in> keys (parse_stats_table decimal_float home_basic_table ''basic'')
   \<and> (\<exists>ts \<in> set (parse_team_stats decimal_float box_doc ''202306150LAL'').
          ''mp'' \<in> keys ts \<and> (\<exists>e. construct TeamGameStats ts = Inl e))"
proof -
  have t: "find_table box_doc (''box-'' @ ''home'' @ ''-game-basic'') = Some home_basic_table"
    by code_simp
  have n: "home_basic_table \<noteq> []" by code_simp
  have l: "2 \<le> length (last home_basic_table)" by code_simp
  have "assemble decimal_float box_doc ''202306150LAL'' \<noteq> None" by code_simp
  then obtain g where g: "assemble decimal_float box_doc ''202306150LAL'' = Some g" by blast
  from team_stats_never_persisted[OF _ t n l g, of accept_all empty_store] t l g
  show ?thesis by simp
qed

text \<open>
  C3 as it is stated, refuted twice. In \<open>one_cell_table\<close> one row stands between the
  header and the totals, and the mapping has \<open>mp\<close> but no \<open>mp_max\<close>, because that row has a
  single cell. And the ingest of the record assembled from \<open>box_doc\<close> does not persist the
  game: \<open>Game(**game_data)\<close> raises on the key \<open>team_stats\<close>, and the database stays empty.
\<close>

theorem game_record_not_persisted:
  "length (butlast (tl one_cell_table)) = 1
   \<and> ''mp'' \<in> keys (parse_stats_table decimal_float one_cell_table ''basic'')
   \<and> ''mp_max'' \<notin> keys (parse_stats_table decimal_float one_cell_table ''basic'')
   \<and> map_option (save_game_to_database accept_all empty_store)
        (assemble decimal_float box_doc ''202306150LAL'')
       = Some (empty_store, LogError TypeError)"
  by code_simp

subsection \<open>Update\<close>

































lemma append_new_Nil: "append_new m [] rows = rows"
  by (simp add: append_new_def)

lemma append_new_Cons:
  "append_new m (inst # insts) rows = append_new m insts (rows @ [new_row m inst rows])"
  by (simp add: append_new_def)

lemma append_new_length: "length (append_new m insts rows) = length rows + length insts"
  by (induction insts arbitrary: rows) (simp_all add: append_new_Nil append_new_Cons)







lemma clear_fks_plain:
  assumes "\<And>k. k \<in> fst ` set inst \<Longrightarrow> \<not> is_relationship m k"
  shows "clear_fks m inst = inst"
proof -
  have f: "filter (\<lambda>(k, v). \<not> is_relationship m k) inst = inst"
    using assms by (force simp: filter_id_conv)
  have n: "map_of inst r = None" if "r \<in> fst ` set rs" "set rs \<subseteq> set (relationships m)" for r rs
  proof -
    from that have "is_relationship m r" by (auto simp: is_relationship_def)
    with assms have "r \<notin> fst ` set inst" by blast
    then show ?thesis by (simp add: map_of_eq_None_iff)
  qed
  have "set rs \<subseteq> set (relationships m) \<Longrightarrow>
        fold (\<lambda>(r, fko) rw. case fko of None \<Rightarrow> rw
                | Some fk \<Rightarrow> if map_of inst r = Some SNone
                             then AList.update fk SNone rw else rw) rs rw = rw" for rs rw
  proof (induction rs arbitrary: rw)
    case Nil
    then show ?case by simp
  next
    case (Cons a rs)
    obtain r fko where a: "a = (r, fko)" by (cases a)
    from Cons.prems a have "map_of inst r = None" by (intro n[of r "a # rs"]) auto
    with Cons a show ?case by (simp split: option.split)
  qed
  from this[of "relationships m"] f show ?thesis by (simp add: clear_fks_def)
qed





lemma rescored_plain:
  assumes "\<And>k. k \<in> fst ` set g \<Longrightarrow> \<not> is_relationship Game k"
  shows "rescored a b c g
       = AList.update ''home_won'' c (AList.update ''away_score'' b
           (AList.update ''home_score'' a g))"
  unfolding rescored_def
proof (rule clear_fks_plain)
  fix k
  assume "k \<in> fst ` set (AList.update ''home_won'' c (AList.update ''away_score'' b
                           (AList.update ''home_score'' a g)))"
  then have "k \<in> {''home_won'', ''away_score'', ''home_score''} \<or> k \<in> fst ` set g"
    by (auto simp: dom_update)
  then show "\<not> is_relationship Game k"
    using assms by (auto simp: is_relationship_def relationships_def)
qed



end
